theory Spec2Isabelle
  imports Complex_Main "HOL-Library.Log_Nat"
begin

section \<open>Python values\<close>

text \<open>
  The two programs (\<^verbatim>\<open>financial_model.py\<close>, the college mess model, and
  \<^verbatim>\<open>p-2/resource_utilization_model.py\<close>, the campus facility model) compute with
  Python's unbounded \<^verbatim>\<open>int\<close> and with \<^verbatim>\<open>float\<close>, an IEEE 754 binary64 number.
  An \<^verbatim>\<open>int\<close> is an \<^typ>\<open>int\<close>. A \<^verbatim>\<open>float\<close> is either a finite value, kept as the
  rational number it denotes, an infinity or a NaN; every arithmetic operation rounds its
  exact result to the nearest binary64 value, ties to even. The sign of a zero is not
  kept: Python's \<^verbatim>\<open>==\<close> and truth test identify \<^verbatim>\<open>0.0\<close> and \<^verbatim>\<open>-0.0\<close>, and the
  code modelled here never divides by a zero (Python raises before the sign could matter).
\<close>

datatype py_error = ZeroDivisionError | OverflowError | ValueError | IndexError

definition py_bind :: "py_error + 'a \<Rightarrow> ('a \<Rightarrow> py_error + 'b) \<Rightarrow> py_error + 'b" where
  "py_bind m f = (case m of Inl e \<Rightarrow> Inl e | Inr v \<Rightarrow> f v)"

datatype pyfloat = Fin rat | PInf | NInf | NaN

subsection \<open>Rounding to binary64\<close>

text \<open>\<open>ilog2 x\<close> is \<open>\<lfloor>log\<^sub>2 x\<rfloor>\<close> for a positive rational \<open>x\<close>.\<close>

definition ilog2 :: "rat \<Rightarrow> int" where
  "ilog2 x = (if 1 \<le> x then bitlen \<lfloor>x\<rfloor> - 1 else - bitlen (\<lceil>1 / x\<rceil> - 1))"

definition round_half_even :: "rat \<Rightarrow> int" where
  "round_half_even x =
     (let f = \<lfloor>x\<rfloor>; d = x - of_int f
      in if d < 1 / 2 then f else if 1 / 2 < d then f + 1 else if even f then f else f + 1)"

text \<open>
  The spacing of binary64 values around \<open>x\<close> is \<open>2\<close> to the power \<open>quantum_exp x\<close>:
  53 significant bits for a normal number, \<open>2 powi - 1074\<close> for a subnormal one.
\<close>

definition quantum_exp :: "rat \<Rightarrow> int" where
  "quantum_exp x = max (ilog2 \<bar>x\<bar> - 52) (- 1074)"

definition round53 :: "rat \<Rightarrow> rat" where
  "round53 x = (if x = 0 then 0
     else of_int (round_half_even (x / 2 powi quantum_exp x)) * 2 powi quantum_exp x)"

text \<open>A result whose rounded magnitude reaches \<open>2 ^ 1024\<close> overflows to an infinity.\<close>

definition fl :: "rat \<Rightarrow> pyfloat" where
  "fl x = (let r = round53 x
           in if 2 ^ 1024 \<le> r then PInf else if r \<le> - (2 ^ 1024) then NInf else Fin r)"


subsection \<open>Rounding a fraction of integers\<close>

text \<open>
  The same rounding on a numerator and a denominator, in integer arithmetic only; the
  lemma \<open>fl_frac\<close> below shows that it is \<^const>\<open>fl\<close>, and concrete values are
  computed with it.
\<close>

definition rhe_frac :: "int \<Rightarrow> int \<Rightarrow> int" where
  "rhe_frac n d =
     (let f = n div d; r = n mod d
      in if 2 * r < d then f else if d < 2 * r then f + 1 else if even f then f else f + 1)"

definition ilog2_frac :: "int \<Rightarrow> int \<Rightarrow> int" where
  "ilog2_frac a b = (if b \<le> a then bitlen (a div b) - 1 else - bitlen ((b - 1) div a))"

definition fl_frac :: "int \<Rightarrow> int \<Rightarrow> pyfloat" where
  "fl_frac a b =
     (if a = 0 then Fin 0
      else let q = max (ilog2_frac \<bar>a\<bar> b - 52) (- 1074);
               n = (if 0 \<le> q then rhe_frac a (b * 2 ^ nat q)
                    else rhe_frac (a * 2 ^ nat (- q)) b)
           in if n = 0 then Fin 0
              else if q + bitlen \<bar>n\<bar> \<le> 1024 then Fin (of_int n * 2 powi q)
              else if 0 < n then PInf else NInf)"

subsection \<open>Float arithmetic\<close>

fun fneg :: "pyfloat \<Rightarrow> pyfloat" where
  "fneg (Fin a) = Fin (- a)"
| "fneg PInf = NInf"
| "fneg NInf = PInf"
| "fneg NaN = NaN"

fun fadd :: "pyfloat \<Rightarrow> pyfloat \<Rightarrow> pyfloat" where
  "fadd (Fin a) (Fin b) = fl (a + b)"
| "fadd NaN y = NaN"
| "fadd x NaN = NaN"
| "fadd PInf NInf = NaN"
| "fadd NInf PInf = NaN"
| "fadd PInf y = PInf"
| "fadd NInf y = NInf"
| "fadd x PInf = PInf"
| "fadd x NInf = NInf"

definition fsub :: "pyfloat \<Rightarrow> pyfloat \<Rightarrow> pyfloat" where
  "fsub x y = fadd x (fneg y)"

text \<open>The sign of a float that is not a NaN, as \<open>- 1\<close>, \<open>0\<close> or \<open>1\<close>.\<close>

fun fsign :: "pyfloat \<Rightarrow> int" where
  "fsign (Fin a) = (if a = 0 then 0 else if 0 < a then 1 else - 1)"
| "fsign PInf = 1"
| "fsign NInf = - 1"
| "fsign NaN = 0"

definition inf_of_sign :: "int \<Rightarrow> pyfloat" where
  "inf_of_sign s = (if s = 0 then NaN else if 0 < s then PInf else NInf)"

fun fmul :: "pyfloat \<Rightarrow> pyfloat \<Rightarrow> pyfloat" where
  "fmul (Fin a) (Fin b) = fl (a * b)"
| "fmul NaN y = NaN"
| "fmul x NaN = NaN"
| "fmul x y = inf_of_sign (fsign x * fsign y)"

text \<open>Python raises \<^verbatim>\<open>ZeroDivisionError\<close> for every float division by a zero.\<close>

fun fdiv :: "pyfloat \<Rightarrow> pyfloat \<Rightarrow> py_error + pyfloat" where
  "fdiv x (Fin b) =
     (if b = 0 then Inl ZeroDivisionError
      else case x of Fin a \<Rightarrow> Inr (fl (a / b)) | NaN \<Rightarrow> Inr NaN
           | _ \<Rightarrow> Inr (inf_of_sign (fsign x * fsign (Fin b))))"
| "fdiv x NaN = Inr NaN"
| "fdiv (Fin a) y = Inr (Fin 0)"
| "fdiv x y = Inr NaN"

text \<open>Comparisons are exact; every comparison with a NaN is false.\<close>

fun fless :: "pyfloat \<Rightarrow> pyfloat \<Rightarrow> bool" where
  "fless (Fin a) (Fin b) = (a < b)"
| "fless NaN y = False"
| "fless x NaN = False"
| "fless x NInf = False"
| "fless PInf y = False"
| "fless NInf y = True"
| "fless x PInf = True"

fun fle :: "pyfloat \<Rightarrow> pyfloat \<Rightarrow> bool" where
  "fle (Fin a) (Fin b) = (a \<le> b)"
| "fle NaN y = False"
| "fle x NaN = False"
| "fle NInf y = True"
| "fle x PInf = True"
| "fle x y = False"

text \<open>The truth value of a float in a condition: everything but zero is true.\<close>

definition ftruth :: "pyfloat \<Rightarrow> bool" where
  "ftruth x = (x \<noteq> Fin 0)"

subsection \<open>Conversions between \<^verbatim>\<open>int\<close> and \<^verbatim>\<open>float\<close>\<close>

text \<open>
  An \<^verbatim>\<open>int\<close> operand of a float operation is converted first; Python raises
  \<^verbatim>\<open>OverflowError\<close> when the integer is too large for a float.
\<close>

definition float_of_int :: "int \<Rightarrow> py_error + pyfloat" where
  "float_of_int n = (case fl (of_int n) of Fin r \<Rightarrow> Inr (Fin r) | _ \<Rightarrow> Inl OverflowError)"

text \<open>A literal such as \<^verbatim>\<open>0.95\<close> denotes the binary64 value nearest to the decimal.\<close>

definition float_lit :: "rat \<Rightarrow> pyfloat" where
  "float_lit d = fl d"

text \<open>\<^verbatim>\<open>int(x)\<close> truncates towards zero.\<close>

definition trunc :: "rat \<Rightarrow> int" where
  "trunc r = (if 0 \<le> r then \<lfloor>r\<rfloor> else \<lceil>r\<rceil>)"

fun int_of_float :: "pyfloat \<Rightarrow> py_error + int" where
  "int_of_float (Fin r) = Inr (trunc r)"
| "int_of_float NaN = Inl ValueError"
| "int_of_float x = Inl OverflowError"

text \<open>
  \<^verbatim>\<open>a / b\<close> on two ints is the correctly rounded quotient; it raises when the divisor
  is zero or the quotient is too large for a float.
\<close>

definition int_truediv :: "int \<Rightarrow> int \<Rightarrow> py_error + pyfloat" where
  "int_truediv a b =
     (if b = 0 then Inl ZeroDivisionError
      else case fl (of_int a / of_int b) of Fin r \<Rightarrow> Inr (Fin r) | _ \<Rightarrow> Inl OverflowError)"

text \<open>\<^verbatim>\<open>n * x\<close> and \<^verbatim>\<open>x * n\<close> for an int \<open>n\<close> and a float \<open>x\<close>.\<close>

definition imulf :: "int \<Rightarrow> pyfloat \<Rightarrow> py_error + pyfloat" where
  "imulf n x = py_bind (float_of_int n) (\<lambda>f. Inr (fmul f x))"

definition fmuli :: "pyfloat \<Rightarrow> int \<Rightarrow> py_error + pyfloat" where
  "fmuli x n = py_bind (float_of_int n) (\<lambda>f. Inr (fmul x f))"

text \<open>
  A Python number that is an \<^verbatim>\<open>int\<close> on one path and a \<^verbatim>\<open>float\<close> on another, as the
  value of \<^verbatim>\<open>x / y if y else 0\<close> is.
\<close>

datatype pynum = PInt int | PFloat pyfloat

text \<open>
  \<^verbatim>\<open>round(v, 2)\<close>: an int is returned as it is, an infinity or a NaN too; a finite float
  is rounded to two decimals, ties to even, on its exact value, and the decimal is
  converted back to the nearest float.
\<close>

fun round2 :: "pynum \<Rightarrow> py_error + pynum" where
  "round2 (PInt n) = Inr (PInt n)"
| "round2 (PFloat (Fin r)) =
     (case fl (of_int (round_half_even (r * 100)) / 100) of
        Fin v \<Rightarrow> Inr (PFloat (Fin v)) | _ \<Rightarrow> Inl OverflowError)"
| "round2 (PFloat x) = Inr (PFloat x)"

text \<open>A dictionary value: a string or a number. A dictionary keeps its insertion order.\<close>

datatype pyval = Str string | Num pynum



text \<open>The decimal digits of an int, as an f-string prints it.\<close>

fun str_nat :: "nat \<Rightarrow> string" where
  "str_nat n =
     (if n < 10 then [char_of (48 + n)] else str_nat (n div 10) @ [char_of (48 + n mod 10)])"

declare str_nat.simps [simp del]



section \<open>The college mess model (\<^verbatim>\<open>financial_model.py\<close>)\<close>

subsection \<open>\<^verbatim>\<open>MessAssumptions\<close> and its derived properties\<close>

record MessAssumptions =
  total_students :: int
  monthly_fee_per_student :: pyfloat
  days_in_month :: int
  daily_food_cost_per_student :: pyfloat
  food_wastage_pct :: pyfloat
  lpg_fuel_monthly :: pyfloat
  water_monthly :: pyfloat
  packaging_disposables_monthly :: pyfloat
  staff_salaries :: pyfloat
  electricity :: pyfloat
  maintenance :: pyfloat
  rent :: pyfloat
  insurance_misc :: pyfloat

text \<open>The defaults of the dataclass; a constructor call that omits a field gets these.\<close>

definition MessAssumptions_default :: MessAssumptions where
  "MessAssumptions_default =
     \<lparr> total_students = 650,
       monthly_fee_per_student = float_lit 4500,
       days_in_month = 30,
       daily_food_cost_per_student = float_lit 90,
       food_wastage_pct = float_lit 12,
       lpg_fuel_monthly = float_lit 55000,
       water_monthly = float_lit 18000,
       packaging_disposables_monthly = float_lit 12000,
       staff_salaries = float_lit 220000,
       electricity = float_lit 45000,
       maintenance = float_lit 20000,
       rent = float_lit 60000,
       insurance_misc = float_lit 15000 \<rparr>"

text \<open>The default assumptions for a month of 31 days.\<close>

definition long_month :: MessAssumptions where
  "long_month = MessAssumptions_default\<lparr>days_in_month := 31\<rparr>"



definition monthly_raw_food_cost :: "MessAssumptions \<Rightarrow> py_error + pyfloat" where
  "monthly_raw_food_cost m =
     py_bind (imulf (total_students m) (daily_food_cost_per_student m))
       (\<lambda>c. fmuli c (days_in_month m))"

definition monthly_wastage_cost :: "MessAssumptions \<Rightarrow> py_error + pyfloat" where
  "monthly_wastage_cost m =
     py_bind (monthly_raw_food_cost m) (\<lambda>raw.
     py_bind (fdiv (food_wastage_pct m) (Fin 100)) (\<lambda>w.
     Inr (fmul raw w)))"

definition total_variable_costs :: "MessAssumptions \<Rightarrow> py_error + pyfloat" where
  "total_variable_costs m =
     py_bind (monthly_raw_food_cost m) (\<lambda>raw.
     py_bind (monthly_wastage_cost m) (\<lambda>waste.
     Inr (fadd (fadd (fadd (fadd raw waste) (lpg_fuel_monthly m)) (water_monthly m))
            (packaging_disposables_monthly m))))"

definition total_fixed_costs :: "MessAssumptions \<Rightarrow> pyfloat" where
  "total_fixed_costs m =
     fadd (fadd (fadd (fadd (staff_salaries m) (electricity m)) (maintenance m)) (rent m))
       (insurance_misc m)"

definition total_revenue :: "MessAssumptions \<Rightarrow> py_error + pyfloat" where
  "total_revenue m = imulf (total_students m) (monthly_fee_per_student m)"

definition total_cost :: "MessAssumptions \<Rightarrow> py_error + pyfloat" where
  "total_cost m =
     py_bind (total_variable_costs m) (\<lambda>v. Inr (fadd v (total_fixed_costs m)))"

definition profit :: "MessAssumptions \<Rightarrow> py_error + pyfloat" where
  "profit m =
     py_bind (total_revenue m) (\<lambda>r.
     py_bind (total_cost m) (\<lambda>c.
     Inr (fsub r c)))"

text \<open>
  \<^verbatim>\<open>(self.profit / self.total_revenue) * 100 if self.total_revenue else 0\<close>: the
  condition is evaluated first, and the \<^verbatim>\<open>else\<close> branch is the int \<^verbatim>\<open>0\<close>.
\<close>

definition profit_margin :: "MessAssumptions \<Rightarrow> py_error + pynum" where
  "profit_margin m =
     py_bind (total_revenue m) (\<lambda>cond.
     if ftruth cond then
       py_bind (profit m) (\<lambda>p.
       py_bind (total_revenue m) (\<lambda>r.
       py_bind (fdiv p r) (\<lambda>q.
       Inr (PFloat (fmul q (Fin 100))))))
     else Inr (PInt 0))"

subsection \<open>The scenario generator\<close>


text \<open>
  Each variant is a fresh \<^verbatim>\<open>MessAssumptions(...)\<close> call with twelve keyword arguments:
  every field but \<^verbatim>\<open>days_in_month\<close>, which therefore takes the dataclass default.
\<close>

definition wastage_variant :: "MessAssumptions \<Rightarrow> int \<Rightarrow> MessAssumptions" where
  "wastage_variant base reduction =
     \<lparr> total_students = total_students base,
       monthly_fee_per_student = monthly_fee_per_student base,
       days_in_month = days_in_month MessAssumptions_default,
       daily_food_cost_per_student = daily_food_cost_per_student base,
       food_wastage_pct = fsub (food_wastage_pct base) (Fin (of_int reduction)),
       lpg_fuel_monthly = lpg_fuel_monthly base,
       water_monthly = water_monthly base,
       packaging_disposables_monthly = packaging_disposables_monthly base,
       staff_salaries = staff_salaries base,
       electricity = electricity base,
       maintenance = maintenance base,
       rent = rent base,
       insurance_misc = insurance_misc base \<rparr>"


definition efficiency_variant :: "MessAssumptions \<Rightarrow> pyfloat \<Rightarrow> MessAssumptions" where
  "efficiency_variant base factor =
     \<lparr> total_students = total_students base,
       monthly_fee_per_student = monthly_fee_per_student base,
       days_in_month = days_in_month MessAssumptions_default,
       daily_food_cost_per_student = daily_food_cost_per_student base,
       food_wastage_pct = food_wastage_pct base,
       lpg_fuel_monthly = fmul (lpg_fuel_monthly base) factor,
       water_monthly = fmul (water_monthly base) factor,
       packaging_disposables_monthly = packaging_disposables_monthly base,
       staff_salaries = staff_salaries base,
       electricity = fmul (electricity base) factor,
       maintenance = fmul (maintenance base) factor,
       rent = rent base,
       insurance_misc = insurance_misc base \<rparr>"

definition pricing_variant :: "MessAssumptions \<Rightarrow> int \<Rightarrow> MessAssumptions" where
  "pricing_variant base bump =
     \<lparr> total_students = total_students base,
       monthly_fee_per_student = fadd (monthly_fee_per_student base) (Fin (of_int bump)),
       days_in_month = days_in_month MessAssumptions_default,
       daily_food_cost_per_student = daily_food_cost_per_student base,
       food_wastage_pct = food_wastage_pct base,
       lpg_fuel_monthly = lpg_fuel_monthly base,
       water_monthly = water_monthly base,
       packaging_disposables_monthly = packaging_disposables_monthly base,
       staff_salaries = staff_salaries base,
       electricity = electricity base,
       maintenance = maintenance base,
       rent = rent base,
       insurance_misc = insurance_misc base \<rparr>"

definition combined_variant :: "MessAssumptions \<Rightarrow> MessAssumptions" where
  "combined_variant base =
     \<lparr> total_students = total_students base,
       monthly_fee_per_student = fadd (monthly_fee_per_student base) (Fin 200),
       days_in_month = days_in_month MessAssumptions_default,
       daily_food_cost_per_student = daily_food_cost_per_student base,
       food_wastage_pct = fsub (food_wastage_pct base) (Fin 10),
       lpg_fuel_monthly = fmul (lpg_fuel_monthly base) (float_lit (95 / 100)),
       water_monthly = fmul (water_monthly base) (float_lit (95 / 100)),
       packaging_disposables_monthly = packaging_disposables_monthly base,
       staff_salaries = staff_salaries base,
       electricity = fmul (electricity base) (float_lit (95 / 100)),
       maintenance = fmul (maintenance base) (float_lit (95 / 100)),
       rent = rent base,
       insurance_misc = insurance_misc base \<rparr>"


section \<open>The campus facility model (\<^verbatim>\<open>p-2/resource_utilization_model.py\<close>)\<close>

subsection \<open>\<^verbatim>\<open>Facility\<close> and its derived properties\<close>

text \<open>\<^verbatim>\<open>HOURS = [f"{h}:00" for h in range(6, 24)]\<close>: eighteen labels.\<close>

definition HOURS :: "string list" where
  "HOURS = map (\<lambda>h. str_nat h @ '':00'') [6..<24]"

record Facility =
  name :: string
  max_capacity :: int
  hourly_usage :: "int list"
  operating_cost_per_hour :: pyfloat

definition total_operating_hours :: "Facility \<Rightarrow> int" where
  "total_operating_hours f = int (length (hourly_usage f))"

definition total_person_hours :: "Facility \<Rightarrow> int" where
  "total_person_hours f = sum_list (hourly_usage f)"

definition max_possible_person_hours :: "Facility \<Rightarrow> int" where
  "max_possible_person_hours f = max_capacity f * total_operating_hours f"

definition avg_utilization_pct :: "Facility \<Rightarrow> py_error + pyfloat" where
  "avg_utilization_pct f =
     (if max_possible_person_hours f = 0 then Inr (Fin 0)
      else py_bind (int_truediv (total_person_hours f) (max_possible_person_hours f))
             (\<lambda>q. Inr (fmul q (Fin 100))))"

definition peak_usage :: "Facility \<Rightarrow> int" where
  "peak_usage f = (if hourly_usage f \<noteq> [] then Max (set (hourly_usage f)) else 0)"

text \<open>\<^verbatim>\<open>xs.index(v)\<close>: the first position of \<open>v\<close>; the length of \<open>xs\<close> when there is none.\<close>

fun index_of :: "'a list \<Rightarrow> 'a \<Rightarrow> nat" where
  "index_of [] v = 0"
| "index_of (x # xs) v = (if x = v then 0 else Suc (index_of xs v))"

text \<open>\<^verbatim>\<open>HOURS[idx]\<close> raises \<^verbatim>\<open>IndexError\<close> past the end of the table.\<close>

definition peak_hour :: "Facility \<Rightarrow> py_error + string" where
  "peak_hour f =
     (if hourly_usage f = [] then Inr ''N/A''
      else let idx = index_of (hourly_usage f) (Max (set (hourly_usage f)))
           in if idx < length HOURS then Inr (HOURS ! idx) else Inl IndexError)"

text \<open>A facility open for nineteen hours whose only visitor comes in the last one.\<close>

definition late_peak :: Facility where
  "late_peak = \<lparr> name = ''Hall'', max_capacity = 10,
     hourly_usage = [0, 0, 0, 0, 0, 0, 0, 0, 0, 0, 0, 0, 0, 0, 0, 0, 0, 0, 1],
     operating_cost_per_hour = Fin 100 \<rparr>"

text \<open>An int is compared with a float by value, without conversion.\<close>

definition idle_hours :: "Facility \<Rightarrow> py_error + int" where
  "idle_hours f =
     py_bind (imulf (max_capacity f) (float_lit (20 / 100))) (\<lambda>threshold.
     Inr (int (length (filter (\<lambda>u. fless (Fin (of_int u)) threshold) (hourly_usage f)))))"

definition overcrowded_hours :: "Facility \<Rightarrow> py_error + int" where
  "overcrowded_hours f =
     py_bind (imulf (max_capacity f) (float_lit (85 / 100))) (\<lambda>threshold.
     Inr (int (length (filter (\<lambda>u. fless threshold (Fin (of_int u))) (hourly_usage f)))))"

definition idle_capacity_pct :: "Facility \<Rightarrow> py_error + pynum" where
  "idle_capacity_pct f =
     (if max_possible_person_hours f \<noteq> 0 then
        py_bind (int_truediv (max_possible_person_hours f - total_person_hours f)
                   (max_possible_person_hours f))
          (\<lambda>q. Inr (PFloat (fmul q (Fin 100))))
      else Inr (PInt 0))"

definition daily_operating_cost :: "Facility \<Rightarrow> py_error + pyfloat" where
  "daily_operating_cost f = fmuli (operating_cost_per_hour f) (total_operating_hours f)"

text \<open>\<^verbatim>\<open>x / n\<close> for a float \<open>x\<close> and an int \<open>n\<close>.\<close>

definition fdivi :: "pyfloat \<Rightarrow> int \<Rightarrow> py_error + pyfloat" where
  "fdivi x n = py_bind (float_of_int n) (\<lambda>d. fdiv x d)"

definition cost_per_person_hour :: "Facility \<Rightarrow> py_error + pynum" where
  "cost_per_person_hour f =
     (if total_person_hours f \<noteq> 0 then
        py_bind (daily_operating_cost f) (\<lambda>c.
        py_bind (fdivi c (total_person_hours f)) (\<lambda>q.
        Inr (PFloat q)))
      else Inr (PInt 0))"

text \<open>The static table of \<^verbatim>\<open>build_dataset\<close>.\<close>

definition build_dataset :: "Facility list" where
  "build_dataset =
     [\<lparr> name = ''Gymnasium'', max_capacity = 60,
        hourly_usage = [8, 25, 35, 15, 10, 12, 18, 22, 30, 45, 50, 38, 28, 15, 10, 8, 20, 35],
        operating_cost_per_hour = float_lit 450 \<rparr>,
      \<lparr> name = ''Central Library'', max_capacity = 200,
        hourly_usage = [15, 30, 60, 90, 120, 140, 150, 165, 170, 180, 175, 160, 130, 100,
                        80, 60, 45, 25],
        operating_cost_per_hour = float_lit 800 \<rparr>,
      \<lparr> name = ''Computer Lab A'', max_capacity = 80,
        hourly_usage = [5, 10, 55, 70, 75, 72, 68, 65, 60, 55, 50, 45, 35, 25, 15, 10, 8, 5],
        operating_cost_per_hour = float_lit 600 \<rparr>,
      \<lparr> name = ''Computer Lab B'', max_capacity = 80,
        hourly_usage = [0, 5, 40, 60, 65, 70, 72, 68, 55, 40, 30, 25, 20, 15, 10, 5, 3, 0],
        operating_cost_per_hour = float_lit 600 \<rparr>,
      \<lparr> name = ''Study Room Block'', max_capacity = 120,
        hourly_usage = [10, 15, 25, 40, 50, 55, 60, 65, 70, 80, 90, 100, 105, 95, 85, 70,
                        55, 40],
        operating_cost_per_hour = float_lit 350 \<rparr>,
      \<lparr> name = ''Auditorium'', max_capacity = 500,
        hourly_usage = [0, 0, 50, 100, 350, 200, 80, 50, 30, 20, 15, 10, 50, 100, 300, 150,
                        50, 0],
        operating_cost_per_hour = float_lit 1200 \<rparr>,
      \<lparr> name = ''Sports Complex'', max_capacity = 150,
        hourly_usage = [20, 40, 15, 10, 8, 12, 15, 20, 25, 35, 50, 65, 80, 100, 120, 130,
                        110, 70],
        operating_cost_per_hour = float_lit 500 \<rparr>]"

subsection \<open>\<^verbatim>\<open>_redistribute_usage\<close>\<close>

text \<open>
  The first loop clamps every slot above \<open>cap\<close> and accumulates what it cut off. It
  returns the new list and the excess.
\<close>

fun clamp_slots :: "int \<Rightarrow> int list \<Rightarrow> int \<Rightarrow> int list \<times> int" where
  "clamp_slots cap [] excess = ([], excess)"
| "clamp_slots cap (u # us) excess =
     (if cap < u
      then (let (r, e) = clamp_slots cap us (excess + (u - cap)) in (cap # r, e))
      else (let (r, e) = clamp_slots cap us excess in (u # r, e)))"

text \<open>
  \<^verbatim>\<open>sorted(range(len(new_usage)), key=lambda i: new_usage[i])\<close>: the indices by
  ascending usage; Python's sort is stable, as \<^const>\<open>sort_key\<close> is.
\<close>

definition low_indices :: "int list \<Rightarrow> nat list" where
  "low_indices new_usage = sort_key (\<lambda>i. new_usage ! i) [0..<length new_usage]"

text \<open>
  The second loop walks the indices, stops as soon as no excess is left, and otherwise
  moves up to \<open>cap - new_usage[idx]\<close> into the slot. It returns the list and the excess
  that found no room.
\<close>

fun spread_excess :: "int \<Rightarrow> nat list \<Rightarrow> int list \<Rightarrow> int \<Rightarrow> int list \<times> int" where
  "spread_excess cap [] new_usage excess = (new_usage, excess)"
| "spread_excess cap (idx # rest) new_usage excess =
     (if excess \<le> 0 then (new_usage, excess)
      else let room = cap - new_usage ! idx;
               add = min excess room
           in spread_excess cap rest (new_usage[idx := new_usage ! idx + add]) (excess - add))"

text \<open>
  The state at the \<^verbatim>\<open>return\<close>: the new usage and the excess that was dropped.
  \<^verbatim>\<open>cap = int(facility.max_capacity * target_pct)\<close> raises when the capacity or the
  product is out of the float range, or \<^verbatim>\<open>target_pct\<close> is a NaN.
\<close>

definition redistribute_state :: "Facility \<Rightarrow> pyfloat \<Rightarrow> py_error + int list \<times> int" where
  "redistribute_state facility target_pct =
     py_bind (imulf (max_capacity facility) target_pct) (\<lambda>prod.
     py_bind (int_of_float prod) (\<lambda>cap.
     let (clamped, excess) = clamp_slots cap (hourly_usage facility) 0
     in Inr (spread_excess cap (low_indices clamped) clamped excess)))"

definition redistribute_usage :: "Facility \<Rightarrow> pyfloat \<Rightarrow> py_error + int list" where
  "redistribute_usage facility target_pct =
     py_bind (redistribute_state facility target_pct) (\<lambda>st. Inr (fst st))"

text \<open>A small hall that is full all day: nothing can absorb what the cap cuts off.\<close>

definition crowded_hall :: Facility where
  "crowded_hall = \<lparr> name = ''Hall'', max_capacity = 10, hourly_usage = [10, 10, 9],
     operating_cost_per_hour = Fin 100 \<rparr>"

subsection \<open>The scenario generator\<close>






definition extended_hours :: "Facility \<Rightarrow> py_error + Facility" where
  "extended_hours f =
     py_bind (avg_utilization_pct f) (\<lambda>avg.
     if fless (Fin 50) avg then
       py_bind (imulf (peak_usage f) (float_lit (3 / 10))) (\<lambda>p.
       py_bind (int_of_float p) (\<lambda>extra.
       Inr \<lparr> name = name f, max_capacity = max_capacity f,
             hourly_usage = hourly_usage f @ [extra, extra],
             operating_cost_per_hour = operating_cost_per_hour f \<rparr>))
     else
       Inr \<lparr> name = name f, max_capacity = max_capacity f,
             hourly_usage = hourly_usage f,
             operating_cost_per_hour = operating_cost_per_hour f \<rparr>)"






subsection \<open>The aggregate metrics of the specification\<close>



section \<open>Properties of the rounding\<close>

lemma pow2_le_of_int: "(2::int) ^ k \<le> m \<Longrightarrow> (2::rat) ^ k \<le> of_int m"
  using of_int_le_iff[of "2 ^ k" m, where ?'a = rat] by simp

lemma of_int_less_pow2: "m < (2::int) ^ k \<Longrightarrow> of_int m + 1 \<le> (2::rat) ^ k"
proof -
  assume "m < 2 ^ k"
  then have "m + 1 \<le> 2 ^ k" by simp
  then show ?thesis using of_int_le_iff[of "m + 1" "2 ^ k", where ?'a = rat] by simp
qed

lemma ilog2_bounds:
  assumes "0 < x"
  shows "2 powi ilog2 x \<le> x" and "x < 2 powi (ilog2 x + 1)"
proof -
  have "2 powi ilog2 x \<le> x \<and> x < 2 powi (ilog2 x + 1)"
  proof (cases "1 \<le> x")
    case True
    define n where "n = \<lfloor>x\<rfloor>"
    have n1: "1 \<le> n" using True by (simp add: n_def)
    then have npos: "0 < n" by simp
    have b1: "1 \<le> bitlen n" using npos by (simp add: bitlen_alt_def)
    from bitlen_bounds[OF npos]
    have lo: "2 ^ nat (bitlen n - 1) \<le> n" and hi: "n < 2 ^ nat (bitlen n)" by auto
    have e: "ilog2 x = bitlen n - 1" using True by (simp add: ilog2_def n_def)
    have nx: "of_int n \<le> x" "x < of_int n + 1"
      using floor_correct[of x] by (simp_all add: n_def)
    have "(2::rat) powi (bitlen n - 1) = 2 ^ nat (bitlen n - 1)"
      using b1 by (simp add: power_int_def)
    also have "\<dots> \<le> of_int n" by (rule pow2_le_of_int[OF lo])
    also have "\<dots> \<le> x" by (rule nx)
    finally have A: "2 powi ilog2 x \<le> x" by (simp add: e)
    have "x < of_int n + 1" by (rule nx)
    also have "\<dots> \<le> 2 ^ nat (bitlen n)" by (rule of_int_less_pow2[OF hi])
    also have "\<dots> = 2 powi (bitlen n)" using b1 by (simp add: power_int_def)
    finally have B: "x < 2 powi (ilog2 x + 1)" by (simp add: e)
    from A B show ?thesis by simp
  next
    case False
    define y where "y = 1 / x"
    define m where "m = \<lceil>y\<rceil> - 1"
    have y1: "1 < y" using False assms by (simp add: y_def)
    have m1: "1 \<le> m" using y1 by (simp add: m_def)
    then have mpos: "0 < m" by simp
    have my: "of_int m < y" "y \<le> of_int m + 1"
      using ceiling_correct[of y] by (simp_all add: m_def)
    have b1: "1 \<le> bitlen m" using mpos by (simp add: bitlen_alt_def)
    from bitlen_bounds[OF mpos]
    have lo: "2 ^ nat (bitlen m - 1) \<le> m" and hi: "m < 2 ^ nat (bitlen m)" by auto
    have e: "ilog2 x = - bitlen m" using False by (simp add: ilog2_def m_def y_def)
    have yle: "y \<le> 2 ^ nat (bitlen m)"
      using my(2) of_int_less_pow2[OF hi] by linarith
    have ygt: "2 ^ nat (bitlen m - 1) < y"
      using my(1) pow2_le_of_int[OF lo] by linarith
    have xy: "x = 1 / y" by (simp add: y_def)
    have ypos: "0 < y" using y1 by simp
    have "(2::rat) powi (- bitlen m) = 1 / 2 ^ nat (bitlen m)"
      using b1 by (simp add: power_int_def field_simps)
    also have "\<dots> \<le> 1 / y" using yle ypos by (simp add: frac_le)
    finally have "2 powi (- bitlen m) \<le> 1 / y" .
    then have A: "2 powi ilog2 x \<le> x" by (simp only: e xy[symmetric])
    have "1 / y < 1 / 2 ^ nat (bitlen m - 1)"
      using ygt by (simp add: frac_less2)
    also have "\<dots> = (2::rat) powi (- bitlen m + 1)"
    proof -
      have "- bitlen m + 1 = - int (nat (bitlen m - 1))" using b1 by simp
      then show ?thesis by (simp only: power_int_minus power_int_of_nat) (simp add: field_simps)
    qed
    finally have "1 / y < 2 powi (- bitlen m + 1)" .
    then have B: "x < 2 powi (ilog2 x + 1)" by (simp only: e xy[symmetric])
    from A B show ?thesis by simp
  qed
  then show "2 powi ilog2 x \<le> x" and "x < 2 powi (ilog2 x + 1)" by simp_all
qed

lemma rhe_range: "round_half_even x = \<lfloor>x\<rfloor> \<or> round_half_even x = \<lfloor>x\<rfloor> + 1"
  by (simp add: round_half_even_def Let_def)

lemma rhe_of_int [simp]: "round_half_even (of_int n) = n"
  by (simp add: round_half_even_def)

lemma rhe_mono:
  assumes "x \<le> y"
  shows "round_half_even x \<le> round_half_even y"
proof (cases "\<lfloor>x\<rfloor> = \<lfloor>y\<rfloor>")
  case True
  then show ?thesis using assms by (auto simp add: round_half_even_def Let_def)
next
  case False
  then have "\<lfloor>x\<rfloor> + 1 \<le> \<lfloor>y\<rfloor>" using floor_mono[OF assms] by simp
  moreover have "round_half_even x \<le> \<lfloor>x\<rfloor> + 1" using rhe_range[of x] by auto
  moreover have "\<lfloor>y\<rfloor> \<le> round_half_even y" using rhe_range[of y] by auto
  ultimately show ?thesis by linarith
qed

lemma rhe_nonneg: "0 \<le> x \<Longrightarrow> 0 \<le> round_half_even x"
  using rhe_mono[of 0 x] rhe_of_int[of 0] by simp

lemma rhe_le_int: "x \<le> of_int n \<Longrightarrow> round_half_even x \<le> n"
  using rhe_mono[of x "of_int n"] by simp

lemma rhe_ge_int: "of_int n \<le> x \<Longrightarrow> n \<le> round_half_even x"
  using rhe_mono[of "of_int n" x] by simp

lemma ilog2_mono:
  assumes "0 < x" "x \<le> y"
  shows "ilog2 x \<le> ilog2 y"
proof -
  have "0 < y" using assms by simp
  have lt: "(2::rat) powi ilog2 x < 2 powi (ilog2 y + 1)"
    using ilog2_bounds(1)[OF assms(1)] ilog2_bounds(2)[OF \<open>0 < y\<close>] assms(2) by linarith
  have "ilog2 x < ilog2 y + 1"
  proof (rule ccontr)
    assume "\<not> ilog2 x < ilog2 y + 1"
    then have "ilog2 y + 1 \<le> ilog2 x" by simp
    then have "(2::rat) powi (ilog2 y + 1) \<le> 2 powi ilog2 x"
      by (rule power_int_increasing) simp
    with lt show False by simp
  qed
  then show ?thesis by simp
qed

lemma quantum_exp_mono: "0 < x \<Longrightarrow> x \<le> y \<Longrightarrow> quantum_exp x \<le> quantum_exp y"
  using ilog2_mono[of x y] by (simp add: quantum_exp_def)

lemma round53_nonneg: "0 \<le> x \<Longrightarrow> 0 \<le> round53 x"
  by (simp add: round53_def rhe_nonneg)

lemma round53_mono_pos:
  assumes "0 < x" "x \<le> y"
  shows "round53 x \<le> round53 y"
proof -
  have ypos: "0 < y" using assms by simp
  define qx where "qx = quantum_exp x"
  define qy where "qy = quantum_exp y"
  have q: "qx \<le> qy" unfolding qx_def qy_def by (rule quantum_exp_mono[OF assms])
  have rx: "round53 x = of_int (round_half_even (x / 2 powi qx)) * 2 powi qx"
    using assms(1) by (simp add: round53_def qx_def)
  have ry: "round53 y = of_int (round_half_even (y / 2 powi qy)) * 2 powi qy"
    using ypos by (simp add: round53_def qy_def)
  have p2: "\<And>k. (0::rat) < 2 powi k" by simp
  show ?thesis
  proof (cases "qx = qy")
    case True
    have "x / 2 powi qy \<le> y / 2 powi qy" using assms(2) p2[of qy] by (simp add: divide_right_mono)
    then have "round_half_even (x / 2 powi qy) \<le> round_half_even (y / 2 powi qy)"
      by (rule rhe_mono)
    then have "(of_int (round_half_even (x / 2 powi qy)) :: rat) \<le> of_int (round_half_even (y / 2 powi qy))"
      by (simp only: of_int_le_iff)
    then show ?thesis unfolding rx ry True using p2[of qy] by (simp add: mult_right_mono)
  next
    case False
    then have lt: "qx < qy" using q by simp
    define ex where "ex = ilog2 x"
    define ey where "ey = ilog2 y"
    have qyv: "qy = ey - 52" using lt unfolding qy_def qx_def quantum_exp_def ey_def
      using assms(1) ypos by (simp add: max_def split: if_splits)
    have qxv: "ex - 52 \<le> qx" unfolding qx_def quantum_exp_def ex_def using assms(1) by simp
    have exy: "ex + 1 \<le> ey" using qyv qxv lt by simp
    define P :: rat where "P = 2 powi ey"
    define k where "k = nat (ey - qx)"
    have kk: "ey - qx = int k" using lt qyv by (simp add: k_def)
    have Pk: "P = 2 ^ k * 2 powi qx"
    proof -
      have "ey = int k + qx" using kk by linarith
      then have "P = 2 powi (int k + qx)" by (simp only: P_def)
      also have "\<dots> = 2 powi (int k) * 2 powi qx" by (simp add: power_int_add)
      finally show ?thesis by simp
    qed
    have "x < 2 powi (ex + 1)" unfolding ex_def by (rule ilog2_bounds(2)[OF assms(1)])
    also have "\<dots> \<le> P" unfolding P_def using exy by (simp add: power_int_increasing)
    finally have xP: "x \<le> P" by simp
    have "x / 2 powi qx \<le> P / 2 powi qx" using xP p2[of qx] by (simp add: divide_right_mono)
    also have "P / 2 powi qx = of_int (2 ^ k)" unfolding Pk by simp
    finally have "round_half_even (x / 2 powi qx) \<le> 2 ^ k" by (rule rhe_le_int)
    then have "(of_int (round_half_even (x / 2 powi qx)) :: rat) \<le> of_int (2 ^ k)"
      by (simp only: of_int_le_iff)
    then have "round53 x \<le> of_int (2 ^ k) * 2 powi qx"
      unfolding rx using p2[of qx] by (simp only: mult_right_mono less_imp_le)
    then have A: "round53 x \<le> P" unfolding Pk by simp
    have Py: "P \<le> y" unfolding P_def ey_def by (rule ilog2_bounds(1)[OF ypos])
    have P52: "P = 2 ^ 52 * 2 powi qy"
    proof -
      have "ey = 52 + qy" using qyv by linarith
      then have "P = 2 powi (52 + qy)" by (simp only: P_def)
      also have "\<dots> = 2 powi 52 * 2 powi qy" by (rule power_int_add) simp
      finally show ?thesis by simp
    qed
    have "P / 2 powi qy \<le> y / 2 powi qy" using Py p2[of qy] by (simp add: divide_right_mono)
    moreover have "P / 2 powi qy = of_int (2 ^ 52)" unfolding P52 by simp
    ultimately have "of_int (2 ^ 52) \<le> y / 2 powi qy" by simp
    then have "2 ^ 52 \<le> round_half_even (y / 2 powi qy)" by (rule rhe_ge_int)
    then have "(of_int (2 ^ 52) :: rat) \<le> of_int (round_half_even (y / 2 powi qy))"
      by (simp only: of_int_le_iff)
    then have "of_int (2 ^ 52) * 2 powi qy \<le> round53 y"
      unfolding ry using p2[of qy] by (simp only: mult_right_mono less_imp_le)
    then have B: "P \<le> round53 y" unfolding P52 by simp
    from A B show ?thesis by simp
  qed
qed

lemma round53_mono_nonneg: "0 \<le> x \<Longrightarrow> x \<le> y \<Longrightarrow> round53 x \<le> round53 y"
  using round53_mono_pos[of x y] round53_nonneg[of y] by (cases "x = 0") (simp_all add: round53_def)


subsection \<open>Computing a rounding\<close>

lemma rhe_frac:
  assumes "0 < d"
  shows "round_half_even (of_int n / of_int d) = rhe_frac n d"
proof -
  have f: "\<lfloor>(of_int n / of_int d :: rat)\<rfloor> = n div d" by (rule floor_divide_of_int_eq)
  have dpos: "(0::rat) < of_int d" using assms by simp
  have "n = n div d * d + n mod d" by simp
  then have "(of_int n :: rat) = of_int (n div d * d + n mod d)" by (rule arg_cong)
  also have "\<dots> = of_int (n div d) * of_int d + of_int (n mod d)"
    by (simp only: of_int_add of_int_mult)
  finally have "(of_int n / of_int d :: rat) = of_int (n div d) + of_int (n mod d) / of_int d"
    using dpos by (simp add: field_simps)
  then have fr: "(of_int n / of_int d :: rat) - of_int (n div d) = of_int (n mod d) / of_int d"
    by simp
  have c1: "(of_int (n mod d) / of_int d :: rat) < 1 / 2 \<longleftrightarrow> 2 * (n mod d) < d"
  proof -
    have "(of_int (n mod d) / of_int d :: rat) < 1 / 2 \<longleftrightarrow> (of_int (2 * (n mod d)) :: rat) < of_int d"
      using dpos by (simp add: field_simps)
    then show ?thesis by (simp only: of_int_less_iff)
  qed
  have c2: "1 / 2 < (of_int (n mod d) / of_int d :: rat) \<longleftrightarrow> d < 2 * (n mod d)"
  proof -
    have "1 / 2 < (of_int (n mod d) / of_int d :: rat) \<longleftrightarrow> (of_int d :: rat) < of_int (2 * (n mod d))"
      using dpos by (simp add: field_simps)
    then show ?thesis by (simp only: of_int_less_iff)
  qed
  show ?thesis
    unfolding round_half_even_def rhe_frac_def Let_def f fr c1 c2 by simp
qed

lemma ilog2_frac:
  assumes "0 < a" "0 < b"
  shows "ilog2 (of_int a / of_int b) = ilog2_frac a b"
proof (cases "b \<le> a")
  case True
  have "(of_int b :: rat) \<le> of_int a" using True by (simp only: of_int_le_iff)
  then have "(1::rat) \<le> of_int a / of_int b" using assms by (simp add: field_simps)
  then show ?thesis using True
    by (simp add: ilog2_def ilog2_frac_def floor_divide_of_int_eq)
next
  case False
  then have "a < b" by simp
  then have "(of_int a :: rat) < of_int b" by (simp only: of_int_less_iff)
  then have lt1: "\<not> (1::rat) \<le> of_int a / of_int b" using assms by (simp add: field_simps)
  define k where "k = (b - 1) div a"
  have dm: "b - 1 = k * a + (b - 1) mod a" unfolding k_def by simp
  have m0: "0 \<le> (b - 1) mod a" and m1: "(b - 1) mod a < a" using assms by simp_all
  have k1: "k * a \<le> b - 1" using dm m0 by linarith
  have "b - 1 < (k + 1) * a" using dm m1 by (simp add: algebra_simps)
  then have k2: "b \<le> (k + 1) * a" by simp
  have apos: "(0::rat) < of_int a" using assms by simp
  have "k * a < b" using k1 by simp
  then have "(of_int (k * a) :: rat) < of_int b" by (simp only: of_int_less_iff)
  then have A: "of_int (k + 1) - 1 < (of_int b / of_int a :: rat)"
    using apos by (simp add: field_simps)
  have "(of_int b :: rat) \<le> of_int ((k + 1) * a)" using k2 by (simp only: of_int_le_iff)
  then have B: "(of_int b / of_int a :: rat) \<le> of_int (k + 1)"
    using apos by (simp add: field_simps)
  have "\<lceil>(of_int b / of_int a :: rat)\<rceil> = k + 1" by (rule ceiling_unique[OF A B])
  moreover have "1 / (of_int a / of_int b :: rat) = of_int b / of_int a" by simp
  ultimately show ?thesis using False lt1
    by (simp add: ilog2_def ilog2_frac_def k_def)
qed


lemma fl_0: "fl 0 = Fin 0"
  by (simp add: fl_def round53_def)

lemma bitlen_abs_bounds:
  assumes "n \<noteq> 0"
  shows "(2::rat) powi (bitlen \<bar>n\<bar> - 1) \<le> of_int \<bar>n\<bar>" and "of_int \<bar>n\<bar> < (2::rat) powi bitlen \<bar>n\<bar>"
proof -
  have pos: "0 < \<bar>n\<bar>" using assms by simp
  have b1: "1 \<le> bitlen \<bar>n\<bar>" using pos by (simp add: bitlen_alt_def)
  from bitlen_bounds[OF pos]
  have lo: "2 ^ nat (bitlen \<bar>n\<bar> - 1) \<le> \<bar>n\<bar>" and hi: "\<bar>n\<bar> < 2 ^ nat (bitlen \<bar>n\<bar>)" by auto
  have "(2::rat) powi (bitlen \<bar>n\<bar> - 1) = 2 ^ nat (bitlen \<bar>n\<bar> - 1)"
    using b1 by (simp add: power_int_def)
  also have "\<dots> \<le> of_int \<bar>n\<bar>" by (rule pow2_le_of_int[OF lo])
  finally show "(2::rat) powi (bitlen \<bar>n\<bar> - 1) \<le> of_int \<bar>n\<bar>" .
  have "of_int \<bar>n\<bar> + 1 \<le> (2::rat) ^ nat (bitlen \<bar>n\<bar>)" by (rule of_int_less_pow2[OF hi])
  also have "\<dots> = 2 powi bitlen \<bar>n\<bar>" using b1 by (simp add: power_int_def)
  finally show "of_int \<bar>n\<bar> < (2::rat) powi bitlen \<bar>n\<bar>" by simp
qed

lemma fl_of_scaled:
  assumes r: "round53 x = of_int n * 2 powi q"
  shows "fl x = (if n = 0 then Fin 0
                 else if q + bitlen \<bar>n\<bar> \<le> 1024 then Fin (of_int n * 2 powi q)
                 else if 0 < n then PInf else NInf)"
proof (cases "n = 0")
  case True
  then show ?thesis using r by (simp add: fl_def)
next
  case False
  define R :: rat where "R = of_int n * 2 powi q"
  have p2: "(0::rat) < 2 powi q" by simp
  have absR: "\<bar>R\<bar> = of_int \<bar>n\<bar> * 2 powi q" by (simp add: R_def abs_mult)
  have p1024: "(2::rat) powi 1024 = 2 ^ 1024" by (simp add: power_int_def)
  show ?thesis
  proof (cases "q + bitlen \<bar>n\<bar> \<le> 1024")
    case True
    have "\<bar>R\<bar> < 2 powi bitlen \<bar>n\<bar> * 2 powi q"
      unfolding absR using bitlen_abs_bounds(2)[OF False] p2 by (simp only: mult_strict_right_mono)
    also have "\<dots> = 2 powi (bitlen \<bar>n\<bar> + q)" by (simp add: power_int_add)
    also have "\<dots> \<le> 2 powi 1024" using True by (intro power_int_increasing) simp_all
    finally have "\<bar>R\<bar> < 2 ^ 1024" by (simp only: p1024)
    then have "\<not> 2 ^ 1024 \<le> R" "\<not> R \<le> - (2 ^ 1024)" by (simp_all add: abs_less_iff)
    then show ?thesis using False True r by (simp add: fl_def R_def)
  next
    case big: False
    then have "1024 \<le> bitlen \<bar>n\<bar> - 1 + q" by simp
    then have "(2::rat) powi 1024 \<le> 2 powi (bitlen \<bar>n\<bar> - 1 + q)"
      by (intro power_int_increasing) simp_all
    also have "\<dots> = 2 powi (bitlen \<bar>n\<bar> - 1) * 2 powi q" by (simp add: power_int_add)
    also have "\<dots> \<le> \<bar>R\<bar>"
      unfolding absR using bitlen_abs_bounds(1)[OF False] p2 by (simp only: mult_right_mono less_imp_le)
    finally have ge: "2 ^ 1024 \<le> \<bar>R\<bar>" by (simp only: p1024)
    show ?thesis
    proof (cases "0 < n")
      case True
      then have "0 < R" by (simp add: R_def)
      then have "2 ^ 1024 \<le> R" using ge by simp
      then show ?thesis using False big True r by (simp add: fl_def R_def)
    next
      case neg: False
      then have "n < 0" using False by simp
      then have "R < 0" by (simp add: R_def mult_neg_pos)
      then have "R \<le> - (2 ^ 1024)" "\<not> 2 ^ 1024 \<le> R" using ge by simp_all
      then show ?thesis using False big neg r by (simp add: fl_def R_def)
    qed
  qed
qed

lemma fl_frac:
  assumes "0 < b"
  shows "fl (of_int a / of_int b) = fl_frac a b"
proof (cases "a = 0")
  case True
  then show ?thesis by (simp add: fl_frac_def fl_0)
next
  case False
  define x :: rat where "x = of_int a / of_int b"
  have xne: "x \<noteq> 0" using False assms by (simp add: x_def)
  have "\<bar>x\<bar> = of_int \<bar>a\<bar> / of_int b" using assms by (simp add: x_def)
  then have il: "ilog2 \<bar>x\<bar> = ilog2_frac \<bar>a\<bar> b"
    using ilog2_frac[of "\<bar>a\<bar>" b] False assms by simp
  define q where "q = max (ilog2_frac \<bar>a\<bar> b - 52) (- 1074)"
  have qe: "quantum_exp x = q" by (simp add: quantum_exp_def il q_def)
  define n where "n = (if 0 \<le> q then rhe_frac a (b * 2 ^ nat q) else rhe_frac (a * 2 ^ nat (- q)) b)"
  have rn: "round_half_even (x / 2 powi q) = n"
  proof (cases "0 \<le> q")
    case True
    then have "(2::rat) powi q = of_int (2 ^ nat q)" by (simp add: power_int_def)
    then have "x / 2 powi q = of_int a / of_int (b * 2 ^ nat q)" by (simp add: x_def)
    moreover have "0 < b * 2 ^ nat q" using assms by simp
    ultimately show ?thesis using True rhe_frac[of "b * 2 ^ nat q" a] by (simp add: n_def)
  next
    case neg: False
    then have "(2::rat) powi q = 1 / of_int (2 ^ nat (- q))"
      by (simp add: power_int_def field_simps)
    then have "x / 2 powi q = of_int (a * 2 ^ nat (- q)) / of_int b" by (simp add: x_def)
    then show ?thesis using neg rhe_frac[OF assms, of "a * 2 ^ nat (- q)"] by (simp add: n_def)
  qed
  have "round53 x = of_int n * 2 powi q" using xne by (simp add: round53_def qe rn)
  from fl_of_scaled[OF this] show ?thesis
    unfolding x_def fl_frac_def using False by (simp add: Let_def q_def[symmetric] n_def[symmetric])
qed

lemma bitlen_numeral_simps:
  "bitlen 1 = 1"
  "bitlen (numeral Num.One) = 1"
  "bitlen (numeral (Num.Bit0 n)) = bitlen (numeral n) + 1"
  "bitlen (numeral (Num.Bit1 n)) = bitlen (numeral n) + 1"
proof -
  show "bitlen 1 = 1" by (subst compute_bitlen) simp
  then show "bitlen (numeral Num.One) = 1" by simp
  show "bitlen (numeral (Num.Bit0 n)) = bitlen (numeral n) + 1"
    by (subst compute_bitlen) simp
  have "(numeral (Num.Bit1 n) :: int) div 2 = numeral n" by simp
  then show "bitlen (numeral (Num.Bit1 n)) = bitlen (numeral n) + 1"
    by (subst compute_bitlen) simp
qed

lemma fl_numeral_simps:
  "fl 1 = fl_frac 1 1"
  "fl (- 1) = fl_frac (- 1) 1"
  "fl (numeral a) = fl_frac (numeral a) 1"
  "fl (- numeral a) = fl_frac (- numeral a) 1"
  "fl (numeral a / numeral b) = fl_frac (numeral a) (numeral b)"
  "fl (- (numeral a / numeral b)) = fl_frac (- numeral a) (numeral b)"
  "fl (1 / numeral b) = fl_frac 1 (numeral b)"
  "fl (- (1 / numeral b)) = fl_frac (- 1) (numeral b)"
  using fl_frac[of 1 1] fl_frac[of 1 "- 1"] fl_frac[of 1 "numeral a"] fl_frac[of 1 "- numeral a"]
    fl_frac[of "numeral b" "numeral a"] fl_frac[of "numeral b" "- numeral a"]
    fl_frac[of "numeral b" 1] fl_frac[of "numeral b" "- 1"]
  by simp_all

lemmas fl_eval = fl_0 fl_numeral_simps fl_frac_def ilog2_frac_def rhe_frac_def Let_def
  bitlen_numeral_simps

lemma rhe_numeral_simps:
  "round_half_even (numeral a / numeral b) = rhe_frac (numeral a) (numeral b)"
  "round_half_even (- (numeral a / numeral b)) = rhe_frac (- numeral a) (numeral b)"
  "round_half_even (numeral a) = numeral a"
  "round_half_even (- numeral a) = - numeral a"
  "round_half_even 0 = 0"
  "round_half_even 1 = 1"
  using rhe_frac[of "numeral b" "numeral a"] rhe_frac[of "numeral b" "- numeral a"]
    rhe_of_int[of "numeral a"] rhe_of_int[of "- numeral a"] rhe_of_int[of 0] rhe_of_int[of 1]
  by simp_all

lemma floor_rat_simps:
  "\<lfloor>numeral a / numeral b :: rat\<rfloor> = numeral a div numeral b"
  "\<lfloor>- (numeral a / numeral b) :: rat\<rfloor> = - numeral a div numeral b"
  "\<lceil>numeral a / numeral b :: rat\<rceil> = - (- numeral a div numeral b)"
  "\<lceil>- (numeral a / numeral b) :: rat\<rceil> = - (numeral a div numeral b)"
  using floor_divide_of_int_eq[of "numeral a" "numeral b", where ?'a = rat]
    floor_divide_of_int_eq[of "- numeral a" "numeral b", where ?'a = rat]
  by (simp_all add: ceiling_def)

lemmas py_eval = py_bind_def imulf_def fmuli_def fdivi_def float_of_int_def int_truediv_def
  float_lit_def fsub_def ftruth_def trunc_def fl_eval floor_rat_simps

section \<open>The claims\<close>

subsection \<open>C2: a facility nobody uses\<close>

lemma fl_1: "fl 1 = Fin 1"
  by (simp add: fl_eval)

lemma fl_100: "fl 100 = Fin 100"
  by (simp add: fl_eval)

lemma int_truediv_self: "m \<noteq> 0 \<Longrightarrow> int_truediv m m = Inr (Fin 1)"
  by (simp add: int_truediv_def fl_1)

text \<open>
  Claim C2, as amended. For every facility whose \<open>total_person_hours\<close> is 0,
  \<open>cost_per_person_hour\<close> is the int 0; \<open>idle_capacity_pct\<close> is the int 0 when
  \<open>max_possible_person_hours\<close> is 0 and the float 100.0 otherwise: the guard of
  \<open>idle_capacity_pct\<close> is on the capacity, not on the usage, and a facility with room and
  no visitors is idle to 100 per cent.
\<close>

theorem idle_capacity_when_unused:
  assumes "total_person_hours f = 0"
  shows "cost_per_person_hour f = Inr (PInt 0) \<and>
         idle_capacity_pct f =
           Inr (if max_possible_person_hours f = 0 then PInt 0 else PFloat (Fin 100))"
  using assms
  by (simp add: cost_per_person_hour_def idle_capacity_pct_def int_truediv_self py_bind_def fl_100)

theorem idle_capacity_when_unused_witness:
  "total_person_hours \<lparr> name = ''Gymnasium'', max_capacity = 60, hourly_usage = [0, 0, 0],
       operating_cost_per_hour = Fin 450 \<rparr> = 0 \<and>
   cost_per_person_hour \<lparr> name = ''Gymnasium'', max_capacity = 60, hourly_usage = [0, 0, 0],
       operating_cost_per_hour = Fin 450 \<rparr> = Inr (PInt 0) \<and>
   idle_capacity_pct \<lparr> name = ''Gymnasium'', max_capacity = 60, hourly_usage = [0, 0, 0],
       operating_cost_per_hour = Fin 450 \<rparr> = Inr (PFloat (Fin 100))"
  using idle_capacity_when_unused [of "\<lparr> name = ''Gymnasium'', max_capacity = 60,
       hourly_usage = [0, 0, 0], operating_cost_per_hour = Fin 450 \<rparr>"]
  by (simp add: total_person_hours_def max_possible_person_hours_def total_operating_hours_def)

text \<open>
  The claim as stated fails: a facility with capacity 60 and three slots, all zero, has
  \<open>total_person_hours = 0\<close> and \<open>idle_capacity_pct = 100.0\<close>.
\<close>

theorem idle_capacity_not_zero_counterexample:
  "total_person_hours \<lparr> name = ''Gymnasium'', max_capacity = 60, hourly_usage = [0, 0, 0],
       operating_cost_per_hour = Fin 450 \<rparr> = 0 \<and>
   idle_capacity_pct \<lparr> name = ''Gymnasium'', max_capacity = 60, hourly_usage = [0, 0, 0],
       operating_cost_per_hour = Fin 450 \<rparr> = Inr (PFloat (Fin 100)) \<and>
   PFloat (Fin 100) \<noteq> PInt 0 \<and> PFloat (Fin 100) \<noteq> PFloat (Fin 0)"
  by (simp add: total_person_hours_def idle_capacity_pct_def max_possible_person_hours_def
      total_operating_hours_def int_truediv_self py_bind_def fl_100)

subsection \<open>C9: the worked example of the mess model\<close>

lemma default_fields:
  "total_students MessAssumptions_default = 650"
  "monthly_fee_per_student MessAssumptions_default = Fin 4500"
  "days_in_month MessAssumptions_default = 30"
  "daily_food_cost_per_student MessAssumptions_default = Fin 90"
  "food_wastage_pct MessAssumptions_default = Fin 12"
  "lpg_fuel_monthly MessAssumptions_default = Fin 55000"
  "water_monthly MessAssumptions_default = Fin 18000"
  "packaging_disposables_monthly MessAssumptions_default = Fin 12000"
  "staff_salaries MessAssumptions_default = Fin 220000"
  "electricity MessAssumptions_default = Fin 45000"
  "maintenance MessAssumptions_default = Fin 20000"
  "rent MessAssumptions_default = Fin 60000"
  "insurance_misc MessAssumptions_default = Fin 15000"
  by (simp_all add: MessAssumptions_default_def py_eval)

lemma default_raw: "monthly_raw_food_cost MessAssumptions_default = Inr (Fin 1755000)"
  by (simp add: monthly_raw_food_cost_def default_fields py_eval)

lemma default_wastage: "monthly_wastage_cost MessAssumptions_default = Inr (Fin 210600)"
  by (simp add: monthly_wastage_cost_def default_raw default_fields py_eval)

lemma default_revenue: "total_revenue MessAssumptions_default = Inr (Fin 2925000)"
  by (simp add: total_revenue_def default_fields py_eval)

lemma default_variable: "total_variable_costs MessAssumptions_default = Inr (Fin 2050600)"
  by (simp add: total_variable_costs_def default_raw default_wastage default_fields py_eval)

lemma default_fixed: "total_fixed_costs MessAssumptions_default = Fin 360000"
  by (simp add: total_fixed_costs_def default_fields py_eval)

lemma default_cost: "total_cost MessAssumptions_default = Inr (Fin 2410600)"
  by (simp add: total_cost_def default_variable default_fixed py_eval)

lemma default_profit: "profit MessAssumptions_default = Inr (Fin 514400)"
  by (simp add: profit_def default_revenue default_cost py_eval)

lemma default_margin:
  "profit_margin MessAssumptions_default =
     Inr (PFloat (Fin (2475055179828401 / 140737488355328)))"
  by (simp add: profit_margin_def default_revenue default_profit py_eval)

lemma default_margin_rounded:
  "round2 (PFloat (Fin (2475055179828401 / 140737488355328))) =
     Inr (PFloat (Fin (4951144840340439 / 281474976710656)))"
  by (simp add: rhe_numeral_simps py_eval)

lemma lit_17_59: "float_lit (1759 / 100) = Fin (4951144840340439 / 281474976710656)"
  by (simp add: py_eval)

text \<open>
  Claim C9. For the mess assumptions with 650 students, fee 4500, daily food cost 90,
  30 days, wastage 12, LPG 55000, water 18000, packaging 12000, salaries 220000,
  electricity 45000, maintenance 20000, rent 60000 and insurance 15000 (the defaults of
  the dataclass), the derived properties return raw food cost 1755000, wastage cost 210600,
  revenue 2925000, variable costs 2050600, fixed costs 360000, total cost 2410600 and profit
  514400, all exactly, and a profit margin within 0.005 of 17.59 that \<^verbatim>\<open>round(_, 2)\<close>
  turns into the float 17.59.
\<close>

theorem default_mess_metrics:
  "MessAssumptions_default =
     \<lparr> total_students = 650, monthly_fee_per_student = Fin 4500, days_in_month = 30,
       daily_food_cost_per_student = Fin 90, food_wastage_pct = Fin 12,
       lpg_fuel_monthly = Fin 55000, water_monthly = Fin 18000,
       packaging_disposables_monthly = Fin 12000, staff_salaries = Fin 220000,
       electricity = Fin 45000, maintenance = Fin 20000, rent = Fin 60000,
       insurance_misc = Fin 15000 \<rparr> \<and>
   monthly_raw_food_cost MessAssumptions_default = Inr (Fin 1755000) \<and>
   monthly_wastage_cost MessAssumptions_default = Inr (Fin 210600) \<and>
   total_revenue MessAssumptions_default = Inr (Fin 2925000) \<and>
   total_variable_costs MessAssumptions_default = Inr (Fin 2050600) \<and>
   total_fixed_costs MessAssumptions_default = Fin 360000 \<and>
   total_cost MessAssumptions_default = Inr (Fin 2410600) \<and>
   profit MessAssumptions_default = Inr (Fin 514400) \<and>
   profit_margin MessAssumptions_default =
     Inr (PFloat (Fin (2475055179828401 / 140737488355328))) \<and>
   \<bar>2475055179828401 / 140737488355328 - 1759 / 100\<bar> < (1 / 200 :: rat) \<and>
   py_bind (profit_margin MessAssumptions_default) round2 =
     Inr (PFloat (float_lit (1759 / 100)))"
proof -
  have "py_bind (profit_margin MessAssumptions_default) round2 =
          Inr (PFloat (float_lit (1759 / 100)))"
    by (simp only: default_margin default_margin_rounded lit_17_59 py_bind_def sum.case)
  moreover have "MessAssumptions_default =
     \<lparr> total_students = 650, monthly_fee_per_student = Fin 4500, days_in_month = 30,
       daily_food_cost_per_student = Fin 90, food_wastage_pct = Fin 12,
       lpg_fuel_monthly = Fin 55000, water_monthly = Fin 18000,
       packaging_disposables_monthly = Fin 12000, staff_salaries = Fin 220000,
       electricity = Fin 45000, maintenance = Fin 20000, rent = Fin 60000,
       insurance_misc = Fin 15000 \<rparr>"
    by (simp add: MessAssumptions_default_def py_eval)
  ultimately show ?thesis
    by (simp only: default_raw default_wastage default_revenue default_variable default_fixed
        default_cost default_profit default_margin) simp
qed

subsection \<open>C10: \<^verbatim>\<open>peak_hour\<close> and the table of hour labels\<close>

lemma length_HOURS: "length HOURS = 18"
  by (simp add: HOURS_def)

lemma nth_HOURS:
  assumes "i < 18"
  shows "HOURS ! i = str_nat (6 + i) @ '':00''"
proof -
  have l: "i < length [6..<24]" using assms by simp
  have "[6..<24] ! i = 6 + i" using assms by (intro nth_upt) simp
  with nth_map[OF l, of "\<lambda>h. str_nat h @ '':00''"] show ?thesis by (simp only: HOURS_def)
qed

lemma index_of_first:
  "i < length xs \<Longrightarrow> xs ! i = v \<Longrightarrow> v \<notin> set (take i xs) \<Longrightarrow> index_of xs v = i"
proof (induction xs arbitrary: i)
  case Nil
  then show ?case by simp
next
  case (Cons x xs)
  show ?case
  proof (cases i)
    case 0
    with Cons.prems show ?thesis by simp
  next
    case (Suc j)
    with Cons.prems have "x \<noteq> v" "j < length xs" "xs ! j = v" "v \<notin> set (take j xs)"
      by auto
    with Cons.IH[of j] Suc show ?thesis by simp
  qed
qed

lemma late_peak_fails: "length (hourly_usage late_peak) = 19 \<and> peak_hour late_peak = Inl IndexError"
  by (simp add: late_peak_def peak_hour_def length_HOURS)

text \<open>
  Claim C10. For empty usage \<open>peak_hour\<close> is \<^verbatim>\<open>"N/A"\<close>. When the maximum of a
  non-empty usage first occurs at index \<open>i\<close>, \<open>peak_hour\<close> is the label \<open>(6 + i):00\<close> if
  \<open>i < 18\<close> and fails with \<^verbatim>\<open>IndexError\<close> if \<open>18 \<le> i\<close>; and there is a facility with more
  than 18 slots on which it fails so.
\<close>

theorem peak_hour_within_table:
  "(hourly_usage f = [] \<longrightarrow> peak_hour f = Inr ''N/A'') \<and>
   (i < length (hourly_usage f) \<and> hourly_usage f ! i = Max (set (hourly_usage f)) \<and>
    Max (set (hourly_usage f)) \<notin> set (take i (hourly_usage f)) \<longrightarrow>
      peak_hour f = (if i < 18 then Inr (str_nat (6 + i) @ '':00'') else Inl IndexError)) \<and>
   (\<exists>g. 18 < length (hourly_usage g) \<and> peak_hour g = Inl IndexError)"
proof (intro conjI impI)
  show "hourly_usage f = [] \<Longrightarrow> peak_hour f = Inr ''N/A''"
    by (simp add: peak_hour_def)
next
  assume a: "i < length (hourly_usage f) \<and> hourly_usage f ! i = Max (set (hourly_usage f)) \<and>
    Max (set (hourly_usage f)) \<notin> set (take i (hourly_usage f))"
  then have ne: "hourly_usage f \<noteq> []" by auto
  from a have "index_of (hourly_usage f) (Max (set (hourly_usage f))) = i"
    by (intro index_of_first) simp_all
  then show "peak_hour f = (if i < 18 then Inr (str_nat (6 + i) @ '':00'') else Inl IndexError)"
    using ne by (simp add: peak_hour_def length_HOURS nth_HOURS)
next
  show "\<exists>g. 18 < length (hourly_usage g) \<and> peak_hour g = Inl IndexError"
    using late_peak_fails by (intro exI[of _ late_peak]) simp
qed

theorem peak_hour_within_table_witness:
  "hourly_usage (build_dataset ! 0) \<noteq> [] \<and>
   10 < length (hourly_usage (build_dataset ! 0)) \<and>
   hourly_usage (build_dataset ! 0) ! 10 = Max (set (hourly_usage (build_dataset ! 0))) \<and>
   Max (set (hourly_usage (build_dataset ! 0))) \<notin> set (take 10 (hourly_usage (build_dataset ! 0))) \<and>
   peak_hour (build_dataset ! 0) = Inr ''16:00''"
proof -
  have u: "hourly_usage (build_dataset ! 0) =
      [8, 25, 35, 15, 10, 12, 18, 22, 30, 45, 50, 38, 28, 15, 10, 8, 20, 35]"
    by (simp add: build_dataset_def)
  have m: "Max (set (hourly_usage (build_dataset ! 0))) = 50"
    unfolding u by simp
  have h: "10 < length (hourly_usage (build_dataset ! 0)) \<and>
     hourly_usage (build_dataset ! 0) ! 10 = Max (set (hourly_usage (build_dataset ! 0))) \<and>
     Max (set (hourly_usage (build_dataset ! 0))) \<notin> set (take 10 (hourly_usage (build_dataset ! 0)))"
    unfolding m unfolding u by simp
  have s: "str_nat 16 = ''16''" by code_simp
  from peak_hour_within_table[of "build_dataset ! 0" 10] h
  have "peak_hour (build_dataset ! 0) = Inr ''16:00''" by (simp add: s)
  with h u show ?thesis by simp
qed

subsection \<open>C8: the extended-hours scenario\<close>

lemma lit_0_3: "float_lit (3 / 10) = Fin (5404319552844595 / 18014398509481984)"
  by (simp add: py_eval)

lemma study_room:
  "build_dataset ! 4 =
     \<lparr> name = ''Study Room Block'', max_capacity = 120,
       hourly_usage = [10, 15, 25, 40, 50, 55, 60, 65, 70, 80, 90, 100, 105, 95, 85, 70,
                       55, 40],
       operating_cost_per_hour = Fin 350 \<rparr>"
  by (simp add: build_dataset_def py_eval)

lemma study_room_avg:
  "avg_utilization_pct (build_dataset ! 4) = Inr (Fin (1808085787898311 / 35184372088832))"
  by (simp add: study_room avg_utilization_pct_def max_possible_person_hours_def
      total_person_hours_def total_operating_hours_def py_eval)

lemma study_room_peak: "peak_usage (build_dataset ! 4) = 105"
  by (simp add: study_room peak_usage_def)

lemma product_105: "imulf 105 (float_lit (3 / 10)) = Inr (Fin (63 / 2))"
  by (simp add: lit_0_3 py_eval)

lemma study_room_product:
  "imulf (peak_usage (build_dataset ! 4)) (float_lit (3 / 10)) = Inr (Fin (63 / 2))"
  by (simp only: study_room_peak product_105)

lemma gymnasium:
  "build_dataset ! 0 =
     \<lparr> name = ''Gymnasium'', max_capacity = 60,
       hourly_usage = [8, 25, 35, 15, 10, 12, 18, 22, 30, 45, 50, 38, 28, 15, 10, 8, 20, 35],
       operating_cost_per_hour = Fin 450 \<rparr>"
  by (simp add: build_dataset_def py_eval)

lemma gymnasium_avg:
  "avg_utilization_pct (build_dataset ! 0) = Inr (Fin (5525249542838803 / 140737488355328))"
  by (simp add: gymnasium avg_utilization_pct_def max_possible_person_hours_def
      total_person_hours_def total_operating_hours_def py_eval)

text \<open>
  Claim C8, as amended. In the extended-hours scenario a facility whose average
  utilisation exceeds 50 gets exactly two more slots, each \<^verbatim>\<open>int(peak_usage * 0.3)\<close>: 30
  per cent of its peak as a float, truncated towards zero to an int (provided the product
  is a finite float); every other facility is rebuilt with the same name, capacity, usage
  and cost.
\<close>

theorem extended_hours_appends_truncated:
  assumes "avg_utilization_pct f = Inr a"
  shows "(fless (Fin 50) a \<and> imulf (peak_usage f) (float_lit (3 / 10)) = Inr (Fin p) \<longrightarrow>
            extended_hours f =
              Inr (f\<lparr>hourly_usage := hourly_usage f @ [trunc p, trunc p]\<rparr>)) \<and>
         (\<not> fless (Fin 50) a \<longrightarrow> extended_hours f = Inr f)"
  using assms by (cases f) (simp add: extended_hours_def py_bind_def)

theorem extended_hours_appends_truncated_witness:
  "avg_utilization_pct (build_dataset ! 4) = Inr (Fin (1808085787898311 / 35184372088832)) \<and>
   fless (Fin 50) (Fin (1808085787898311 / 35184372088832)) \<and>
   imulf (peak_usage (build_dataset ! 4)) (float_lit (3 / 10)) = Inr (Fin (63 / 2)) \<and>
   extended_hours (build_dataset ! 4) =
     Inr ((build_dataset ! 4)\<lparr>hourly_usage := hourly_usage (build_dataset ! 4) @ [31, 31]\<rparr>) \<and>
   avg_utilization_pct (build_dataset ! 0) = Inr (Fin (5525249542838803 / 140737488355328)) \<and>
   \<not> fless (Fin 50) (Fin (5525249542838803 / 140737488355328)) \<and>
   extended_hours (build_dataset ! 0) = Inr (build_dataset ! 0)"
  using extended_hours_appends_truncated [OF study_room_avg, of "63 / 2"]
    extended_hours_appends_truncated [OF gymnasium_avg, of 0]
  by (simp add: study_room_avg study_room_product gymnasium_avg trunc_def floor_rat_simps)

text \<open>
  The claim as stated fails on the dataset itself: the Study Room Block is used to 51.4
  per cent, its peak is 105, and the two slots it gets are 31, not 31.5.
\<close>

theorem extended_slot_not_30_pct_counterexample:
  "avg_utilization_pct (build_dataset ! 4) = Inr (Fin (1808085787898311 / 35184372088832)) \<and>
   fless (Fin 50) (Fin (1808085787898311 / 35184372088832)) \<and>
   peak_usage (build_dataset ! 4) = 105 \<and>
   extended_hours (build_dataset ! 4) =
     Inr ((build_dataset ! 4)\<lparr>hourly_usage := hourly_usage (build_dataset ! 4) @ [31, 31]\<rparr>) \<and>
   (of_int 31 :: rat) \<noteq> 30 / 100 * of_int 105"
  by (simp add: study_room_avg product_105 study_room_peak extended_hours_def py_bind_def
      trunc_def floor_rat_simps)

subsection \<open>C6: what a variant keeps of its base\<close>

lemma long_month_raw: "monthly_raw_food_cost long_month = Inr (Fin 1813500)"
  by (simp add: long_month_def monthly_raw_food_cost_def default_fields py_eval)

lemma long_month_variant_raw:
  "monthly_raw_food_cost (wastage_variant long_month 5) = Inr (Fin 1755000)"
  by (simp add: long_month_def wastage_variant_def monthly_raw_food_cost_def default_fields
      py_eval)

text \<open>
  Claim C6, evaluated on the code. Every variant is built without \<^verbatim>\<open>days_in_month\<close>
  and so has the default 30, whatever the base has: for a base of 31 days the variants
  disagree with the base on \<^verbatim>\<open>days_in_month\<close>, and their raw food cost is that of 30
  days (1755000) against the base's 1813500.
\<close>

theorem variants_drop_days_in_month:
  "days_in_month (wastage_variant base reduction) = 30 \<and>
   days_in_month (efficiency_variant base factor) = 30 \<and>
   days_in_month (pricing_variant base bump) = 30 \<and>
   days_in_month (combined_variant base) = 30 \<and>
   days_in_month long_month = 31 \<and>
   days_in_month (wastage_variant long_month 5) \<noteq> days_in_month long_month \<and>
   monthly_raw_food_cost long_month = Inr (Fin 1813500) \<and>
   monthly_raw_food_cost (wastage_variant long_month 5) = Inr (Fin 1755000)"
  by (simp add: long_month_raw long_month_variant_raw)
     (simp add: wastage_variant_def efficiency_variant_def pricing_variant_def
      combined_variant_def long_month_def default_fields)

subsection \<open>C4: the guard of \<^verbatim>\<open>profit_margin\<close>\<close>

lemma float_of_int_error: "float_of_int n = Inl e \<Longrightarrow> e = OverflowError"
  by (simp add: float_of_int_def split: pyfloat.splits)

lemma imulf_error: "imulf n x = Inl e \<Longrightarrow> e = OverflowError"
  by (auto simp add: imulf_def py_bind_def split: sum.splits dest: float_of_int_error)

lemma fmuli_error: "fmuli x n = Inl e \<Longrightarrow> e = OverflowError"
  by (auto simp add: fmuli_def py_bind_def split: sum.splits dest: float_of_int_error)

lemma fdiv_nonzero: "r \<noteq> Fin 0 \<Longrightarrow> \<exists>q. fdiv p r = Inr q"
  by (cases r; cases p) auto

lemma fdiv_100: "\<exists>q. fdiv w (Fin 100) = Inr q"
  by (rule fdiv_nonzero) simp

lemma raw_error: "monthly_raw_food_cost m = Inl e \<Longrightarrow> e = OverflowError"
  by (auto simp add: monthly_raw_food_cost_def py_bind_def split: sum.splits
      dest: imulf_error fmuli_error)

lemma wastage_error: "monthly_wastage_cost m = Inl e \<Longrightarrow> e = OverflowError"
  using fdiv_100[of "food_wastage_pct m"]
  by (auto simp add: monthly_wastage_cost_def py_bind_def split: sum.splits dest: raw_error)

lemma variable_error: "total_variable_costs m = Inl e \<Longrightarrow> e = OverflowError"
  by (auto simp add: total_variable_costs_def py_bind_def split: sum.splits
      dest: raw_error wastage_error)

lemma cost_error: "total_cost m = Inl e \<Longrightarrow> e = OverflowError"
  by (auto simp add: total_cost_def py_bind_def split: sum.splits dest: variable_error)

lemma revenue_error: "total_revenue m = Inl e \<Longrightarrow> e = OverflowError"
  by (auto simp add: total_revenue_def dest: imulf_error)

lemma profit_error: "profit m = Inl e \<Longrightarrow> e = OverflowError"
  by (auto simp add: profit_def py_bind_def split: sum.splits dest: revenue_error cost_error)

lemma margin_error: "profit_margin m = Inl e \<Longrightarrow> e = OverflowError"
proof -
  assume a: "profit_margin m = Inl e"
  show ?thesis
  proof (cases "total_revenue m")
    case (Inl x)
    with a revenue_error[of m x] show ?thesis by (simp add: profit_margin_def py_bind_def)
  next
    case (Inr r)
    show ?thesis
    proof (cases "r = Fin 0")
      case True
      with a Inr show ?thesis by (simp add: profit_margin_def py_bind_def ftruth_def)
    next
      case False
      from fdiv_nonzero[OF False] have d: "\<And>p. \<exists>q. fdiv p r = Inr q" by simp
      show ?thesis
      proof (cases "profit m")
        case (Inl x)
        with a Inr False profit_error[of m x] show ?thesis
          by (simp add: profit_margin_def py_bind_def ftruth_def)
      next
        case p: (Inr p)
        from d[of p] obtain q where "fdiv p r = Inr q" by blast
        with a Inr False p show ?thesis
          by (simp add: profit_margin_def py_bind_def ftruth_def)
      qed
    qed
  qed
qed

lemma raw_total:
  "float_of_int (total_students m) = Inr s \<Longrightarrow> float_of_int (days_in_month m) = Inr d \<Longrightarrow>
   \<exists>v. monthly_raw_food_cost m = Inr v"
  by (simp add: monthly_raw_food_cost_def imulf_def fmuli_def py_bind_def)

lemma profit_total:
  assumes "float_of_int (total_students m) = Inr s" "float_of_int (days_in_month m) = Inr d"
  shows "\<exists>v. profit m = Inr v"
proof -
  from raw_total[OF assms] obtain raw where raw: "monthly_raw_food_cost m = Inr raw" by blast
  from fdiv_100[of "food_wastage_pct m"] obtain w where w: "fdiv (food_wastage_pct m) (Fin 100) = Inr w"
    by blast
  show ?thesis
    using assms(1) raw w
    by (simp add: profit_def total_cost_def total_variable_costs_def monthly_wastage_cost_def
        total_revenue_def imulf_def py_bind_def)
qed

text \<open>
  Claim C4. For every mess assumption set, \<open>profit_margin\<close> never raises
  \<^verbatim>\<open>ZeroDivisionError\<close>: no division by zero is reachable. It is the int 0 when
  \<open>total_revenue\<close> is zero, and \<open>(profit / total_revenue) * 100\<close> in float arithmetic
  when \<open>total_revenue\<close> is not zero; and it returns a value whenever \<open>total_students\<close> and
  \<open>days_in_month\<close> convert to a float, as every count of the data model does.
\<close>

theorem profit_margin_guarded:
  "profit_margin m \<noteq> Inl ZeroDivisionError \<and>
   (total_revenue m = Inr (Fin 0) \<longrightarrow> profit_margin m = Inr (PInt 0)) \<and>
   (total_revenue m = Inr r \<and> r \<noteq> Fin 0 \<and> profit m = Inr p \<longrightarrow>
      (\<exists>q. fdiv p r = Inr q \<and> profit_margin m = Inr (PFloat (fmul q (Fin 100))))) \<and>
   (float_of_int (total_students m) = Inr s \<and> float_of_int (days_in_month m) = Inr d \<longrightarrow>
      (\<exists>v. profit_margin m = Inr v))"
proof (intro conjI impI)
  show "profit_margin m \<noteq> Inl ZeroDivisionError"
    using margin_error[of m ZeroDivisionError] by auto
next
  assume "total_revenue m = Inr (Fin 0)"
  then show "profit_margin m = Inr (PInt 0)"
    by (simp add: profit_margin_def py_bind_def ftruth_def)
next
  assume a: "total_revenue m = Inr r \<and> r \<noteq> Fin 0 \<and> profit m = Inr p"
  then obtain q where q: "fdiv p r = Inr q" using fdiv_nonzero[of r p] by blast
  with a show "\<exists>q. fdiv p r = Inr q \<and> profit_margin m = Inr (PFloat (fmul q (Fin 100)))"
    by (simp add: profit_margin_def py_bind_def ftruth_def)
next
  assume a: "float_of_int (total_students m) = Inr s \<and> float_of_int (days_in_month m) = Inr d"
  then obtain p where p: "profit m = Inr p" using profit_total[of m s d] by blast
  from a have rv: "total_revenue m = Inr (fmul s (monthly_fee_per_student m))"
    by (simp add: total_revenue_def imulf_def py_bind_def)
  show "\<exists>v. profit_margin m = Inr v"
  proof (cases "fmul s (monthly_fee_per_student m) = Fin 0")
    case True
    with rv show ?thesis by (simp add: profit_margin_def py_bind_def ftruth_def)
  next
    case False
    from fdiv_nonzero[OF False, of p] obtain q where "fdiv p (fmul s (monthly_fee_per_student m)) = Inr q"
      by blast
    with rv p False show ?thesis by (simp add: profit_margin_def py_bind_def ftruth_def)
  qed
qed

lemma default_quotient:
  "fdiv (Fin 514400) (Fin 2925000) = Inr (Fin (3168070630180353 / 18014398509481984))"
  by (simp add: py_eval)

lemma no_students_revenue:
  "total_revenue (MessAssumptions_default\<lparr>total_students := 0\<rparr>) = Inr (Fin 0)"
  by (simp add: total_revenue_def default_fields py_eval)

theorem profit_margin_guarded_witness:
  "total_revenue MessAssumptions_default = Inr (Fin 2925000) \<and>
   Fin 2925000 \<noteq> Fin 0 \<and>
   profit MessAssumptions_default = Inr (Fin 514400) \<and>
   fdiv (Fin 514400) (Fin 2925000) = Inr (Fin (3168070630180353 / 18014398509481984)) \<and>
   profit_margin MessAssumptions_default =
     Inr (PFloat (fmul (Fin (3168070630180353 / 18014398509481984)) (Fin 100))) \<and>
   float_of_int (total_students MessAssumptions_default) = Inr (Fin 650) \<and>
   float_of_int (days_in_month MessAssumptions_default) = Inr (Fin 30) \<and>
   total_revenue (MessAssumptions_default\<lparr>total_students := 0\<rparr>) = Inr (Fin 0) \<and>
   profit_margin (MessAssumptions_default\<lparr>total_students := 0\<rparr>) = Inr (PInt 0)"
proof -
  have c: "float_of_int (total_students MessAssumptions_default) = Inr (Fin 650)"
    "float_of_int (days_in_month MessAssumptions_default) = Inr (Fin 30)"
    by (simp_all add: default_fields py_eval)
  from profit_margin_guarded
    [of MessAssumptions_default "Fin 2925000" "Fin 514400" "Fin 650" "Fin 30"]
  have "profit_margin MessAssumptions_default =
     Inr (PFloat (fmul (Fin (3168070630180353 / 18014398509481984)) (Fin 100)))"
    by (simp only: default_revenue default_profit default_quotient) simp
  moreover from profit_margin_guarded
    [of "MessAssumptions_default\<lparr>total_students := 0\<rparr>" "Fin 0" "Fin 0" "Fin 0" "Fin 0"]
  have "profit_margin (MessAssumptions_default\<lparr>total_students := 0\<rparr>) = Inr (PInt 0)"
    by (simp add: no_students_revenue)
  ultimately show ?thesis
    using c
    by (simp only: default_revenue default_profit default_quotient no_students_revenue) simp
qed

subsection \<open>C1: redistribution never adds person-hours\<close>

lemma clamp_slots_props:
  "clamp_slots cap us e = (r, e') \<Longrightarrow>
     sum_list r + e' = sum_list us + e \<and> e \<le> e' \<and> (\<forall>x\<in>set r. x \<le> cap) \<and>
     length r = length us"
proof (induction us arbitrary: e r e')
  case Nil
  then show ?case by simp
next
  case (Cons u us)
  show ?case
  proof (cases "cap < u")
    case True
    obtain r1 e1 where c: "clamp_slots cap us (e + (u - cap)) = (r1, e1)" by fastforce
    with Cons.prems True have "r = cap # r1" "e' = e1" by simp_all
    with Cons.IH[OF c] True show ?thesis by auto
  next
    case False
    obtain r1 e1 where c: "clamp_slots cap us e = (r1, e1)" by fastforce
    with Cons.prems False have "r = u # r1" "e' = e1" by simp_all
    with Cons.IH[OF c] False show ?thesis by auto
  qed
qed

lemma sum_list_update_int:
  "i < length xs \<Longrightarrow> sum_list (xs[i := v]) = sum_list xs - xs ! i + (v::int)"
  by (induction xs arbitrary: i) (auto split: nat.splits)

lemma spread_excess_props:
  "spread_excess cap idxs xs e = (r, e') \<Longrightarrow> \<forall>x\<in>set xs. x \<le> cap \<Longrightarrow>
   \<forall>i\<in>set idxs. i < length xs \<Longrightarrow> 0 \<le> e \<Longrightarrow>
     sum_list r + e' = sum_list xs + e \<and> 0 \<le> e' \<and> (\<forall>x\<in>set r. x \<le> cap) \<and>
     length r = length xs"
proof (induction idxs arbitrary: xs e)
  case Nil
  then show ?case by simp
next
  case (Cons idx rest)
  show ?case
  proof (cases "e \<le> 0")
    case True
    with Cons.prems show ?thesis by simp
  next
    case False
    define add where "add = min e (cap - xs ! idx)"
    define ys where "ys = xs[idx := xs ! idx + add]"
    have idx: "idx < length xs" using Cons.prems(3) by simp
    have room: "0 \<le> cap - xs ! idx" using Cons.prems(2) idx by (simp add: nth_mem)
    have add0: "0 \<le> add" "add \<le> e" "xs ! idx + add \<le> cap"
      using False room by (simp_all add: add_def)
    have step: "spread_excess cap rest ys (e - add) = (r, e')"
      using Cons.prems(1) False by (simp add: add_def ys_def Let_def)
    have b: "\<forall>x\<in>set ys. x \<le> cap"
      using Cons.prems(2) add0(3) unfolding ys_def
      by (auto dest!: set_update_subset_insert[THEN subsetD])
    have l: "\<forall>i\<in>set rest. i < length ys" using Cons.prems(3) by (simp add: ys_def)
    have s: "sum_list ys = sum_list xs + add"
      unfolding ys_def using idx by (simp add: sum_list_update_int)
    from Cons.IH[OF step b l] add0(2)
    have "sum_list r + e' = sum_list ys + (e - add) \<and> 0 \<le> e' \<and> (\<forall>x\<in>set r. x \<le> cap) \<and>
      length r = length ys" by simp
    then show ?thesis using s by (simp add: ys_def)
  qed
qed

lemma low_indices_in_range: "\<forall>i\<in>set (low_indices xs). i < length xs"
  by (simp add: low_indices_def)

lemma redistribute_core:
  assumes "clamp_slots cap us 0 = (c, e)" "spread_excess cap (low_indices c) c e = (r, d)"
  shows "sum_list r + d = sum_list us \<and> 0 \<le> d \<and> (\<forall>x\<in>set r. x \<le> cap) \<and>
         length r = length us"
proof -
  from clamp_slots_props[OF assms(1)]
  have c: "sum_list c + e = sum_list us" "0 \<le> e" "\<forall>x\<in>set c. x \<le> cap" "length c = length us"
    by simp_all
  from spread_excess_props[OF assms(2) c(3) low_indices_in_range c(2)] c(1,4)
  show ?thesis by simp
qed

lemma trunc_le: "0 \<le> r \<Longrightarrow> of_int (trunc r) \<le> r"
  by (simp add: trunc_def)

lemma fl_nonneg_cases:
  assumes "0 \<le> x"
  shows "(\<exists>r. fl x = Fin r \<and> 0 \<le> r) \<or> fl x = PInf"
proof -
  have "0 \<le> round53 x" using assms by (rule round53_nonneg)
  then show ?thesis by (auto simp add: fl_def Let_def)
qed

lemma float_of_int_nonneg:
  assumes "0 \<le> n" "float_of_int n = Inr c"
  shows "\<exists>r. c = Fin r \<and> 0 \<le> r"
proof -
  have "(0::rat) \<le> of_int n" using assms(1) by simp
  from fl_nonneg_cases[OF this] show ?thesis
  proof
    assume "\<exists>r. fl (of_int n) = Fin r \<and> 0 \<le> r"
    then obtain r where "fl (of_int n) = Fin r" "0 \<le> r" by blast
    with assms(2) show ?thesis by (auto simp add: float_of_int_def)
  next
    assume "fl (of_int n) = PInf"
    with assms(2) show ?thesis by (simp add: float_of_int_def)
  qed
qed

lemma cap_below_product:
  assumes "0 \<le> n" "fle (Fin 0) t" "imulf n t = Inr p" "int_of_float p = Inr cap"
  shows "fle (Fin (of_int cap)) p"
proof -
  from assms(3) obtain c where c: "float_of_int n = Inr c" and p: "p = fmul c t"
    by (auto simp add: imulf_def py_bind_def split: sum.splits)
  from float_of_int_nonneg[OF assms(1) c] obtain cr where cr: "c = Fin cr" "0 \<le> cr" by blast
  from assms(4) obtain r where r: "p = Fin r" "cap = trunc r" by (cases p) auto
  show ?thesis
  proof (cases t)
    case (Fin tr)
    with assms(2) have "0 \<le> tr" by simp
    then have "0 \<le> cr * tr" using cr(2) by simp
    from fl_nonneg_cases[OF this] p cr(1) Fin r(1) have "0 \<le> r" by auto
    then show ?thesis using r trunc_le[of r] by simp
  next
    case PInf
    with p cr r(1) show ?thesis by (auto simp add: inf_of_sign_def split: if_splits)
  next
    case NInf
    with assms(2) show ?thesis by simp
  next
    case NaN
    with assms(2) show ?thesis by simp
  qed
qed

lemma fle_trans_int: "u \<le> cap \<Longrightarrow> fle (Fin (of_int cap)) p \<Longrightarrow> fle (Fin (of_int u)) p"
  by (cases p) auto

text \<open>
  Claim C1. Whenever \<^verbatim>\<open>_redistribute_usage\<close> returns, the sum of the list it returns is at
  most the sum of the facility's usage, with equality exactly when no excess is left over
  after the second loop (all that was clamped off has been absorbed); the list has the
  length of the input; and, for a capacity and a cap fraction that are not negative, no
  slot of it exceeds the product \<^verbatim>\<open>max_capacity * target_pct\<close> as the code computes it.
\<close>

theorem redistribute_never_increases:
  assumes "redistribute_state f target_pct = Inr (new_usage, dropped)"
  shows "redistribute_usage f target_pct = Inr new_usage \<and>
         sum_list new_usage \<le> sum_list (hourly_usage f) \<and>
         (sum_list new_usage = sum_list (hourly_usage f) \<longleftrightarrow> dropped = 0) \<and>
         length new_usage = length (hourly_usage f) \<and>
         (0 \<le> max_capacity f \<and> fle (Fin 0) target_pct \<longrightarrow>
            (\<exists>p. imulf (max_capacity f) target_pct = Inr p \<and>
                 (\<forall>u\<in>set new_usage. fle (Fin (of_int u)) p)))"
proof -
  from assms obtain p where p: "imulf (max_capacity f) target_pct = Inr p"
    by (auto simp add: redistribute_state_def py_bind_def split: sum.splits)
  with assms obtain cap where cap: "int_of_float p = Inr cap"
    by (auto simp add: redistribute_state_def py_bind_def split: sum.splits)
  obtain c e where c: "clamp_slots cap (hourly_usage f) 0 = (c, e)" by fastforce
  with assms p cap have s: "spread_excess cap (low_indices c) c e = (new_usage, dropped)"
    by (simp add: redistribute_state_def py_bind_def)
  from redistribute_core[OF c s]
  have core: "sum_list new_usage + dropped = sum_list (hourly_usage f)" "0 \<le> dropped"
    "\<forall>x\<in>set new_usage. x \<le> cap" "length new_usage = length (hourly_usage f)" by simp_all
  have a: "redistribute_usage f target_pct = Inr new_usage"
    using assms by (simp add: redistribute_usage_def py_bind_def)
  have b: "0 \<le> max_capacity f \<and> fle (Fin 0) target_pct \<longrightarrow>
      (\<exists>p. imulf (max_capacity f) target_pct = Inr p \<and>
           (\<forall>u\<in>set new_usage. fle (Fin (of_int u)) p))"
  proof
    assume h: "0 \<le> max_capacity f \<and> fle (Fin 0) target_pct"
    then have "fle (Fin (of_int cap)) p" using cap_below_product[OF _ _ p cap] by simp
    with core(3) have "\<forall>u\<in>set new_usage. fle (Fin (of_int u)) p"
      by (auto intro: fle_trans_int)
    with p show "\<exists>p. imulf (max_capacity f) target_pct = Inr p \<and>
           (\<forall>u\<in>set new_usage. fle (Fin (of_int u)) p)" by blast
  qed
  from a b core show ?thesis by auto
qed

lemma lit_0_7:
  "float_lit (70 / 100) = Fin (3152519739159347 / 4503599627370496)"
  "float_lit (7 / 10) = Fin (3152519739159347 / 4503599627370496)"
  by (simp_all add: py_eval)

lemma cap_60: "imulf 60 (Fin (3152519739159347 / 4503599627370496)) = Inr (Fin 42)"
  by (simp add: py_eval)

lemma cap_10: "imulf 10 (Fin (3152519739159347 / 4503599627370496)) = Inr (Fin 7)"
  by (simp add: py_eval)

lemma gymnasium_core:
  "(case clamp_slots 42 [8, 25, 35, 15, 10, 12, 18, 22, 30, 45, 50, 38, 28, 15, 10, 8, 20, 35] 0
    of (clamped, excess) \<Rightarrow> spread_excess 42 (low_indices clamped) clamped excess) =
   ([19, 25, 35, 15, 10, 12, 18, 22, 30, 42, 42, 38, 28, 15, 10, 8, 20, 35], 0)"
  by code_simp

lemma crowded_core:
  "(case clamp_slots 7 [10, 10, 9] 0
    of (clamped, excess) \<Rightarrow> spread_excess 7 (low_indices clamped) clamped excess) =
   ([7, 7, 7], 8)"
  by code_simp

lemma gymnasium_redistributed:
  "redistribute_state (build_dataset ! 0) (float_lit (70 / 100)) =
     Inr ([19, 25, 35, 15, 10, 12, 18, 22, 30, 42, 42, 38, 28, 15, 10, 8, 20, 35], 0)"
proof -
  have "redistribute_state (build_dataset ! 0) (float_lit (70 / 100)) =
      Inr (case clamp_slots 42 [8, 25, 35, 15, 10, 12, 18, 22, 30, 45, 50, 38, 28, 15, 10, 8, 20, 35] 0
           of (clamped, excess) \<Rightarrow> spread_excess 42 (low_indices clamped) clamped excess)"
    unfolding redistribute_state_def lit_0_7(1) gymnasium
    by (simp add: cap_60 py_bind_def trunc_def split: prod.splits)
  then show ?thesis by (simp only: gymnasium_core)
qed

lemma crowded_redistributed:
  "redistribute_state crowded_hall (float_lit (70 / 100)) = Inr ([7, 7, 7], 8)"
proof -
  have "redistribute_state crowded_hall (float_lit (70 / 100)) =
      Inr (case clamp_slots 7 [10, 10, 9] 0
           of (clamped, excess) \<Rightarrow> spread_excess 7 (low_indices clamped) clamped excess)"
    unfolding redistribute_state_def lit_0_7(1) crowded_hall_def
    by (simp add: cap_10 py_bind_def trunc_def split: prod.splits)
  then show ?thesis by (simp only: crowded_core)
qed

theorem redistribute_never_increases_witness:
  "redistribute_state (build_dataset ! 0) (float_lit (70 / 100)) =
     Inr ([19, 25, 35, 15, 10, 12, 18, 22, 30, 42, 42, 38, 28, 15, 10, 8, 20, 35], 0) \<and>
   redistribute_usage (build_dataset ! 0) (float_lit (70 / 100)) =
     Inr [19, 25, 35, 15, 10, 12, 18, 22, 30, 42, 42, 38, 28, 15, 10, 8, 20, 35] \<and>
   sum_list [19, 25, 35, 15, 10, 12, 18, 22, 30, 42, 42, 38, 28, 15, 10, 8, 20, 35] =
     sum_list (hourly_usage (build_dataset ! 0)) \<and>
   0 \<le> max_capacity (build_dataset ! 0) \<and>
   fle (Fin 0) (float_lit (70 / 100)) \<and>
   imulf (max_capacity (build_dataset ! 0)) (float_lit (70 / 100)) = Inr (Fin 42) \<and>
   list_all (\<lambda>u. fle (Fin (of_int u)) (Fin 42))
     [19, 25, 35, 15, 10, 12, 18, 22, 30, 42, 42, 38, 28, 15, 10, 8, 20, 35] \<and>
   redistribute_state crowded_hall (float_lit (70 / 100)) = Inr ([7, 7, 7], 8) \<and>
   redistribute_usage crowded_hall (float_lit (70 / 100)) = Inr [7, 7, 7] \<and>
   sum_list [7, 7, 7] < sum_list (hourly_usage crowded_hall)"
proof -
  have m: "max_capacity (build_dataset ! 0) = 60" by (simp add: gymnasium)
  have p: "imulf (max_capacity (build_dataset ! 0)) (float_lit (70 / 100)) = Inr (Fin 42)"
    by (simp only: m lit_0_7(1) cap_60)
  have h: "0 \<le> max_capacity (build_dataset ! 0) \<and> fle (Fin 0) (float_lit (70 / 100))"
    by (simp add: m lit_0_7)
  from redistribute_never_increases[OF gymnasium_redistributed] h p
  have g: "redistribute_usage (build_dataset ! 0) (float_lit (70 / 100)) =
      Inr [19, 25, 35, 15, 10, 12, 18, 22, 30, 42, 42, 38, 28, 15, 10, 8, 20, 35]"
    "sum_list [19, 25, 35, 15, 10, 12, 18, 22, 30, 42, 42, 38, 28, 15, 10, 8, 20, 35] =
      sum_list (hourly_usage (build_dataset ! 0))"
    "list_all (\<lambda>u. fle (Fin (of_int u)) (Fin 42))
      [19, 25, 35, 15, 10, 12, 18, 22, 30, 42, 42, 38, 28, 15, 10, 8, 20, 35]"
    by (simp_all add: list_all_iff)
  from redistribute_never_increases[OF crowded_redistributed]
  have c: "redistribute_usage crowded_hall (float_lit (70 / 100)) = Inr [7, 7, 7]"
    "sum_list [7, 7, 7] < sum_list (hourly_usage crowded_hall)"
    by simp_all
  from g c h p gymnasium_redistributed crowded_redistributed show ?thesis by simp
qed

subsection \<open>C5: idle and overcrowded slots are disjoint\<close>

lemma fl_mono_nonneg:
  assumes "0 \<le> x" "x \<le> y"
  shows "fle (fl x) (fl y)"
proof -
  have m: "round53 x \<le> round53 y" using assms by (rule round53_mono_nonneg)
  have "0 \<le> round53 x" using assms(1) by (rule round53_nonneg)
  with m show ?thesis by (auto simp add: fl_def Let_def)
qed

lemma lit_0_2:
  "float_lit (20 / 100) = Fin (3602879701896397 / 18014398509481984)"
  "float_lit (1 / 5) = Fin (3602879701896397 / 18014398509481984)"
  by (simp_all add: py_eval)

lemma lit_0_85:
  "float_lit (85 / 100) = Fin (7656119366529843 / 9007199254740992)"
  "float_lit (17 / 20) = Fin (7656119366529843 / 9007199254740992)"
  by (simp_all add: py_eval)

lemma thresholds_ordered:
  assumes "0 \<le> n" "imulf n (float_lit (20 / 100)) = Inr lo"
    "imulf n (float_lit (85 / 100)) = Inr hi"
  shows "fle lo hi"
proof -
  from assms(2) obtain c where c: "float_of_int n = Inr c"
    by (auto simp add: imulf_def py_bind_def split: sum.splits)
  from float_of_int_nonneg[OF assms(1) c] obtain r where r: "c = Fin r" "0 \<le> r" by blast
  have lo: "lo = fl (r * (3602879701896397 / 18014398509481984))"
    using assms(2) c r(1) by (simp add: imulf_def py_bind_def lit_0_2)
  have hi: "hi = fl (r * (7656119366529843 / 9007199254740992))"
    using assms(3) c r(1) by (simp add: imulf_def py_bind_def lit_0_85)
  have "r * (3602879701896397 / 18014398509481984) \<le> r * (7656119366529843 / 9007199254740992)"
    using r(2) by (intro mult_left_mono) simp_all
  moreover have "0 \<le> r * (3602879701896397 / 18014398509481984)" using r(2) by simp
  ultimately show ?thesis unfolding lo hi by (intro fl_mono_nonneg)
qed

lemma not_idle_and_overcrowded:
  "fle lo hi \<Longrightarrow> \<not> (fless (Fin u) lo \<and> fless hi (Fin u))"
  by (cases lo; cases hi) auto

lemma length_filter_disjoint:
  "\<forall>x\<in>set xs. \<not> (P x \<and> Q x) \<Longrightarrow> length (filter P xs) + length (filter Q xs) \<le> length xs"
  by (induction xs) auto

text \<open>
  Claim C5. For every facility whose capacity is not negative (the data model has
  \<open>max_capacity > 0\<close>), \<open>idle_hours + overcrowded_hours\<close> is at most the number of slots:
  the threshold \<open>max_capacity * 0.20\<close> is not above \<open>max_capacity * 0.85\<close> after rounding
  either, so no slot is below the first and above the second.
\<close>

theorem idle_and_overcrowded_disjoint:
  assumes "0 \<le> max_capacity f" "idle_hours f = Inr i" "overcrowded_hours f = Inr c"
  shows "i + c \<le> int (length (hourly_usage f))"
proof -
  from assms(2) obtain lo where lo: "imulf (max_capacity f) (float_lit (20 / 100)) = Inr lo"
    and i: "i = int (length (filter (\<lambda>u. fless (Fin (of_int u)) lo) (hourly_usage f)))"
    by (auto simp add: idle_hours_def py_bind_def split: sum.splits)
  from assms(3) obtain hi where hi: "imulf (max_capacity f) (float_lit (85 / 100)) = Inr hi"
    and c: "c = int (length (filter (\<lambda>u. fless hi (Fin (of_int u))) (hourly_usage f)))"
    by (auto simp add: overcrowded_hours_def py_bind_def split: sum.splits)
  have "fle lo hi" by (rule thresholds_ordered[OF assms(1) lo hi])
  then have "\<forall>u\<in>set (hourly_usage f).
      \<not> (fless (Fin (of_int u)) lo \<and> fless hi (Fin (of_int u)))"
    using not_idle_and_overcrowded by blast
  from length_filter_disjoint[OF this] show ?thesis unfolding i c by simp
qed

lemma central_library:
  "build_dataset ! 1 =
     \<lparr> name = ''Central Library'', max_capacity = 200,
       hourly_usage = [15, 30, 60, 90, 120, 140, 150, 165, 170, 180, 175, 160, 130, 100,
                       80, 60, 45, 25],
       operating_cost_per_hour = Fin 800 \<rparr>"
  by (simp add: build_dataset_def py_eval)

lemma library_idle: "idle_hours (build_dataset ! 1) = Inr 3"
  unfolding central_library by (simp add: idle_hours_def py_eval)

lemma library_overcrowded: "overcrowded_hours (build_dataset ! 1) = Inr 2"
  unfolding central_library by (simp add: overcrowded_hours_def py_eval)

theorem idle_and_overcrowded_disjoint_witness:
  "0 \<le> max_capacity (build_dataset ! 1) \<and>
   idle_hours (build_dataset ! 1) = Inr 3 \<and>
   overcrowded_hours (build_dataset ! 1) = Inr 2 \<and>
   (3::int) + 2 \<le> int (length (hourly_usage (build_dataset ! 1)))"
proof -
  have h: "0 \<le> max_capacity (build_dataset ! 1)" unfolding central_library by simp
  from idle_and_overcrowded_disjoint[OF h library_idle library_overcrowded] h
  show ?thesis by (simp only: library_idle library_overcrowded)
qed

subsection \<open>C3: scenario 0 is the base case\<close>





































subsection \<open>C7: wastage reductions have no floor\<close>

























end
